theory Spec2Isabelle
  imports Complex_Main
begin

section \<open>Errors and decimal rendering\<close>

text \<open>
  The clients throw instances of \<open>MeshyError\<close> and of its three subclasses
  (\<open>base.ts\<close>), and plain \<open>Error\<close> objects. A thrown value is modelled as a value of
  type \<open>error\<close>; a function that may throw returns \<open>error + 'a\<close>. \<open>Meshy\<close> carries the
  class name, the message, \<open>statusCode\<close> and \<open>responseBody\<close>; \<open>Error\<close> is \<open>new Error(message)\<close>;
  \<open>FetchError\<close> is what a rejected \<open>fetch\<close> throws, \<open>JsonError\<close> what \<open>response.json()\<close>
  throws on a body that is not JSON, and \<open>TypeError\<close> what reading a property of \<open>null\<close>
  throws.

  \<open>JSON.parse\<close> is a parameter of the model, a function from the body text to what
  \<open>JSON.parse\<close> does with it: it throws, it returns \<open>null\<close> (the body is the JSON text
  \<open>null\<close>), or it returns a value, read through the optional fields of
  \<open>MeshyErrorResponse\<close> (a value that is not an object has none of them; a message that
  is not a string stands as the text a template literal makes of it).
\<close>

record MeshyErrorResponse =
  er_message :: "string option"
  er_code :: "string option"
  er_details :: "string option"

datatype parsed = ParseThrows | ParsedNull | Parsed MeshyErrorResponse

datatype error_name = MeshyError | MeshyRateLimitError | MeshyAuthError | MeshyPaymentError

datatype error =
    Meshy error_name string nat "MeshyErrorResponse option"
  | Error string
  | FetchError string
  | JsonError
  | TypeError

text \<open>Template literals render numbers in decimal.\<close>

definition digit_char :: "nat \<Rightarrow> char" where
  "digit_char d = char_of (48 + d)"

fun show_nat :: "nat \<Rightarrow> string" where
  "show_nat n = (if n < 10 then [digit_char n] else show_nat (n div 10) @ [digit_char (n mod 10)])"

declare show_nat.simps [simp del]

text \<open>JavaScript truthiness of an optional string: \<open>undefined\<close> and \<open>''\<close> are falsy.\<close>

fun truthy :: "string option \<Rightarrow> bool" where
  "truthy None = False"
| "truthy (Some s) = (s \<noteq> [])"

text \<open>\<open>a || b\<close> on optional strings.\<close>

definition or_else :: "string option \<Rightarrow> string option \<Rightarrow> string option" where
  "or_else a b = (if truthy a then a else b)"

datatype task_status = PENDING | IN_PROGRESS | SUCCEEDED | FAILED | CANCELED | EXPIRED

fun status_text :: "task_status \<Rightarrow> string" where
  "status_text PENDING = ''PENDING''"
| "status_text IN_PROGRESS = ''IN_PROGRESS''"
| "status_text SUCCEEDED = ''SUCCEEDED''"
| "status_text FAILED = ''FAILED''"
| "status_text CANCELED = ''CANCELED''"
| "status_text EXPIRED = ''EXPIRED''"

section \<open>Retexture client: \<open>createRetextureTask\<close>\<close>

record RetextureTaskParams =
  input_task_id :: "string option"
  model_url :: "string option"
  text_style_prompt :: "string option"
  image_style_url :: "string option"
  ai_model :: "string option"
  enable_original_uv :: "bool option"
  enable_pbr :: "bool option"

datatype body_value = Str string | Bool bool | Undefined

fun opt_str :: "string option \<Rightarrow> body_value" where
  "opt_str None = Undefined"
| "opt_str (Some s) = Str s"

record http_request =
  rq_url :: string
  rq_method :: string
  rq_headers :: "(string \<times> string) list"
  rq_body :: "(string \<times> body_value) list"

record create_reply =
  reply_result :: "string option"
  reply_id :: "string option"

record RetextureTask =
  rt_id :: string
  rt_status :: task_status
  rt_progress :: "nat option"
  rt_model_urls :: "(string \<times> string) list option"
  rt_texture_urls :: "(string \<times> string) list list option"
  rt_created_at :: int

text \<open>
  The request body built by \<open>createRetextureTask\<close> once validation has passed: the
  object's entries in insertion order.
\<close>

definition retexture_body :: "RetextureTaskParams \<Rightarrow> (string \<times> body_value) list" where
  "retexture_body params =
     (if truthy (input_task_id params)
        then [(''input_task_id'', opt_str (input_task_id params))]
        else [(''model_url'', opt_str (model_url params))])
   @ (if truthy (text_style_prompt params)
        then [(''text_style_prompt'', opt_str (text_style_prompt params))]
        else [(''image_style_url'', opt_str (image_style_url params))])
   @ (if truthy (ai_model params) then [(''ai_model'', opt_str (ai_model params))] else [])
   @ (case enable_original_uv params of None \<Rightarrow> [] | Some b \<Rightarrow> [(''enable_original_uv'', Bool b)])
   @ (case enable_pbr params of None \<Rightarrow> [] | Some b \<Rightarrow> [(''enable_pbr'', Bool b)])"

text \<open>
  \<open>createRetextureTask(params, makeRequestWithRetry)\<close>. The callback is a function from
  the request to its outcome; the second component of the result lists the requests the
  callback was invoked with, in order. \<open>now\<close> is the value of \<open>Date.now()\<close> read for
  \<open>created_at\<close>.
\<close>

definition createRetextureTask ::
  "string \<Rightarrow> string \<Rightarrow> int \<Rightarrow> RetextureTaskParams \<Rightarrow> (http_request \<Rightarrow> error + create_reply)
     \<Rightarrow> (error + RetextureTask) \<times> http_request list" where
  "createRetextureTask apiKey baseUrl now params makeRequestWithRetry =
     (if \<not> truthy (input_task_id params) \<and> \<not> truthy (model_url params)
        then (Inl (Error ''Either input_task_id or model_url is required''), [])
      else if \<not> truthy (text_style_prompt params) \<and> \<not> truthy (image_style_url params)
        then (Inl (Error ''Either text_style_prompt or image_style_url is required''), [])
      else
        let rq = \<lparr> rq_url = baseUrl @ ''/retexture'', rq_method = ''POST'',
                    rq_headers = [(''Authorization'', ''Bearer '' @ apiKey),
                                  (''Content-Type'', ''application/json'')],
                    rq_body = retexture_body params \<rparr>
        in case makeRequestWithRetry rq of
             Inl e \<Rightarrow> (Inl e, [rq])
           | Inr data \<Rightarrow>
               (case or_else (reply_result data) (reply_id data) of
                  None \<Rightarrow> (Inl (Error ''No task ID returned from createRetextureTask''), [rq])
                | Some taskId \<Rightarrow>
                    if taskId = [] then (Inl (Error ''No task ID returned from createRetextureTask''), [rq])
                    else (Inr \<lparr> rt_id = taskId, rt_status = PENDING, rt_progress = Some 0,
                                rt_model_urls = None, rt_texture_urls = None,
                                rt_created_at = now \<rparr>, [rq])))"


text \<open>The fields of a thrown \<open>MeshyError\<close>; a plain error has none of them.\<close>

fun err_name :: "error \<Rightarrow> error_name option" where
  "err_name (Meshy n m s b) = Some n"
| "err_name e = None"

fun err_status :: "error \<Rightarrow> nat option" where
  "err_status (Meshy n m s b) = Some s"
| "err_status e = None"

fun err_body :: "error \<Rightarrow> MeshyErrorResponse option" where
  "err_body (Meshy n m s b) = b"
| "err_body e = None"

section \<open>Base client\<close>

text \<open>
  \<open>base.ts\<close>: the retry configuration and its default, the pro-tier ceiling
  \<open>RATE_LIMITS.pro.requestsPerSecond\<close> that \<open>checkRateLimit\<close> hard-codes, and the window
  length \<open>rateLimitWindow\<close> in milliseconds. Delays are JavaScript numbers, modelled as reals;
  \<open>maxRetries\<close> is a count. \<open>retryOn\<close> is part of the configuration; no code of the client
  reads it.
\<close>

record RetryConfig =
  maxRetries :: nat
  baseDelay :: real
  maxDelay :: real
  retryOn :: "nat list"

definition DEFAULT_RETRY_CONFIG :: RetryConfig where
  "DEFAULT_RETRY_CONFIG =
     \<lparr> maxRetries = 3, baseDelay = 1000, maxDelay = 10000, retryOn = [429, 500, 502, 503, 504] \<rparr>"

definition pro_requestsPerSecond :: nat where
  "pro_requestsPerSecond = 20"

definition rateLimitWindow :: int where
  "rateLimitWindow = 1000"

text \<open>
  What \<open>fetch\<close> gives back. A response has a status, a body text (\<open>response.text()\<close>) and
  the result of \<open>response.json()\<close> cast to the expected payload: \<open>None\<close> when the body is not
  JSON and \<open>json()\<close> rejects. A fetch either rejects (no response: a transport failure) or
  resolves with a response. \<open>response.ok\<close> holds for the statuses 200 to 299.

  The network is a function from the number of fetches made so far to the next exchange:
  how the fetch ends, the milliseconds it takes, and the value \<open>Math.random()\<close> returns if a
  backoff is computed after it.
\<close>

record 'a response =
  rs_status :: nat
  rs_text :: string
  rs_json :: "'a option"

definition ok :: "'a response \<Rightarrow> bool" where
  "ok r = (200 \<le> rs_status r \<and> rs_status r \<le> 299)"

datatype 'a fetched = Rejects string | Resolves "'a response"

record 'a exchange =
  outcome :: "'a fetched"
  latency :: nat
  random :: real

text \<open>
  JavaScript numbers where they can leave the finite range. A \<open>number\<close> is a finite value,
  \<open>Infinity\<close>, \<open>-Infinity\<close> or \<open>NaN\<close>. Finite arithmetic is exact (rounding to the nearest
  double is not modelled); a result above \<open>Number.MAX_VALUE\<close> in magnitude is an infinity.
  \<open>js_times\<close>, \<open>js_plus\<close>, \<open>js_min\<close>, \<open>js_floor\<close> and \<open>js_pow2\<close> are \<open>*\<close>, \<open>+\<close>,
  \<open>Math.min\<close>, \<open>Math.floor\<close> and \<open>Math.pow(2, n)\<close> for a count \<open>n\<close>, with the IEEE rules for
  the infinities and \<open>NaN\<close>: \<open>0 * Infinity\<close> and \<open>Infinity - Infinity\<close> are \<open>NaN\<close>, and
  \<open>NaN\<close> propagates through every operation, \<open>Math.min\<close> included.
\<close>

datatype number = Num real | PosInf | NegInf | NaN

definition MAX_VALUE :: real where
  "MAX_VALUE = (2 - 1 / 2 ^ 52) * 2 ^ 1023"

definition to_number :: "real \<Rightarrow> number" where
  "to_number x = (if MAX_VALUE < x then PosInf else if x < - MAX_VALUE then NegInf else Num x)"

fun js_times :: "number \<Rightarrow> number \<Rightarrow> number" where
  "js_times NaN y = NaN"
| "js_times x NaN = NaN"
| "js_times (Num a) (Num b) = to_number (a * b)"
| "js_times (Num a) PosInf = (if a = 0 then NaN else if 0 < a then PosInf else NegInf)"
| "js_times (Num a) NegInf = (if a = 0 then NaN else if 0 < a then NegInf else PosInf)"
| "js_times PosInf (Num b) = (if b = 0 then NaN else if 0 < b then PosInf else NegInf)"
| "js_times NegInf (Num b) = (if b = 0 then NaN else if 0 < b then NegInf else PosInf)"
| "js_times PosInf PosInf = PosInf"
| "js_times PosInf NegInf = NegInf"
| "js_times NegInf PosInf = NegInf"
| "js_times NegInf NegInf = PosInf"

fun js_plus :: "number \<Rightarrow> number \<Rightarrow> number" where
  "js_plus NaN y = NaN"
| "js_plus x NaN = NaN"
| "js_plus (Num a) (Num b) = to_number (a + b)"
| "js_plus PosInf NegInf = NaN"
| "js_plus NegInf PosInf = NaN"
| "js_plus PosInf y = PosInf"
| "js_plus x PosInf = PosInf"
| "js_plus NegInf y = NegInf"
| "js_plus x NegInf = NegInf"

fun js_min :: "number \<Rightarrow> number \<Rightarrow> number" where
  "js_min NaN y = NaN"
| "js_min x NaN = NaN"
| "js_min (Num a) (Num b) = Num (min a b)"
| "js_min NegInf y = NegInf"
| "js_min x NegInf = NegInf"
| "js_min PosInf y = y"
| "js_min x PosInf = x"

fun js_floor :: "number \<Rightarrow> number" where
  "js_floor (Num x) = Num (of_int \<lfloor>x\<rfloor>)"
| "js_floor x = x"

definition js_pow2 :: "nat \<Rightarrow> number" where
  "js_pow2 n = (if n < 1024 then Num (2 ^ n) else PosInf)"

text \<open>
  The state of one client and of its environment: the clock read by \<open>Date.now()\<close>, the number
  of fetches made, the field \<open>requestTimes\<close>, and a log of the actions taken, in order:
  calls of \<open>checkRateLimit\<close>, fetches (with the attempt index of the loop that made them),
  sleeps, \<open>console.warn\<close> lines and pushes onto \<open>requestTimes\<close>.
\<close>

datatype warning =
    RateLimitApproaching int
  | RateLimitedWillRetry
  | RetryAttempt nat nat number

datatype event =
    CheckRateLimit
  | Fetch nat
  | Sleep int
  | Warn warning
  | Push int

record state =
  clock :: int
  fetches :: nat
  requestTimes :: "int list"
  trace :: "event list"

text \<open>
  \<open>sleep(ms)\<close> lets the clock advance by \<open>ms\<close>; a fetch takes its latency and consumes one
  exchange of the network. \<open>timeout_ms\<close> is the delay \<open>setTimeout\<close> makes of a number: a
  delay that is not finite does not make it wait.
\<close>

definition timeout_ms :: "number \<Rightarrow> int" where
  "timeout_ms delay = (case delay of Num x \<Rightarrow> \<lfloor>x\<rfloor> | PosInf \<Rightarrow> 0 | NegInf \<Rightarrow> 0 | NaN \<Rightarrow> 0)"

definition emit :: "event \<Rightarrow> state \<Rightarrow> state" where
  "emit e st = st\<lparr> trace := trace st @ [e] \<rparr>"

definition sleep :: "int \<Rightarrow> state \<Rightarrow> state" where
  "sleep ms st = st\<lparr> clock := clock st + max 0 ms, trace := trace st @ [Sleep ms] \<rparr>"

definition do_fetch :: "(nat \<Rightarrow> 'a exchange) \<Rightarrow> nat \<Rightarrow> state \<Rightarrow> 'a fetched \<times> state" where
  "do_fetch net attempt st =
     (let x = net (fetches st)
      in (outcome x,
          st\<lparr> clock := clock st + int (latency x), fetches := Suc (fetches st),
               trace := trace st @ [Fetch attempt] \<rparr>))"

text \<open>
  \<open>calculateBackoff(attempt)\<close>, with the value of \<open>Math.random()\<close> as a parameter:
  \<open>Math.floor(Math.min(exponential + jitter, maxDelay))\<close>, where
  \<open>jitter = Math.random() * 0.3 * exponential\<close> multiplies from the left.
  \<open>finite_backoff\<close> says that the attempt index is small enough for \<open>exponential + jitter\<close> to
  stay finite whatever \<open>Math.random()\<close> returns.
\<close>

definition calculateBackoff :: "RetryConfig \<Rightarrow> nat \<Rightarrow> real \<Rightarrow> number" where
  "calculateBackoff cfg attempt rnd =
     (let exponential = js_times (Num (baseDelay cfg)) (js_pow2 attempt);
          jitter = js_times (js_times (Num rnd) (Num (3 / 10))) exponential;
          delay = js_min (js_plus exponential jitter) (Num (maxDelay cfg))
      in js_floor delay)"

definition finite_backoff :: "RetryConfig \<Rightarrow> nat \<Rightarrow> bool" where
  "finite_backoff cfg attempt =
     (attempt < 1024 \<and> baseDelay cfg * 2 ^ attempt * (13 / 10) \<le> MAX_VALUE)"

text \<open>
  \<open>handleErrorResponse(response, attempt)\<close>. \<open>error_data\<close> is the \<open>try\<close>/\<open>catch\<close> around
  \<open>JSON.parse(body)\<close>: when parsing throws, the raw body becomes the message; when it returns
  \<open>null\<close> there is no error data, and reading \<open>errorData.message\<close> throws a \<open>TypeError\<close>
  before the \<open>switch\<close> is reached. The message is \<open>errorData.message\<close>, or \<open>HTTP\<close> and the
  status when that is missing or empty. The function always throws; the model returns the
  \<open>console.warn\<close> lines it printed and the error thrown.
\<close>

definition error_data :: "(string \<Rightarrow> parsed) \<Rightarrow> string \<Rightarrow> MeshyErrorResponse option" where
  "error_data parse body =
     (case parse body of
        ParseThrows \<Rightarrow> Some \<lparr> er_message = Some body, er_code = None, er_details = None \<rparr>
      | ParsedNull \<Rightarrow> None
      | Parsed d \<Rightarrow> Some d)"

definition error_message :: "MeshyErrorResponse \<Rightarrow> nat \<Rightarrow> string" where
  "error_message errorData status =
     (case er_message errorData of
        None \<Rightarrow> ''HTTP '' @ show_nat status
      | Some m \<Rightarrow> if m = [] then ''HTTP '' @ show_nat status else m)"

definition handleErrorResponse ::
  "(string \<Rightarrow> parsed) \<Rightarrow> RetryConfig \<Rightarrow> 'a response \<Rightarrow> nat
     \<Rightarrow> warning list \<times> error" where
  "handleErrorResponse parse cfg response attempt =
     (case error_data parse (rs_text response) of
        None \<Rightarrow> ([], TypeError)
      | Some errorData \<Rightarrow>
     (let message = error_message errorData (rs_status response);
          status = rs_status response
      in if status = 400 then ([], Meshy MeshyError (''Bad Request: '' @ message) 400 (Some errorData))
         else if status = 401 then ([], Meshy MeshyAuthError (''Unauthorized: '' @ message) 401 None)
         else if status = 402 then ([], Meshy MeshyPaymentError (''Payment Required: '' @ message) 402 None)
         else if status = 403 then
           ([], Meshy MeshyError (''Forbidden: '' @ message @ ''. Check CORS if calling from browser.'')
                  403 (Some errorData))
         else if status = 404 then ([], Meshy MeshyError (''Not Found: '' @ message) 404 (Some errorData))
         else if status = 429 then
           (if attempt < maxRetries cfg
              then ([RateLimitedWillRetry], Meshy MeshyRateLimitError message 429 (Some errorData))
              else ([], Meshy MeshyRateLimitError (''Rate Limit Exceeded: '' @ message) 429 (Some errorData)))
         else if status = 500 \<or> status = 502 \<or> status = 503 \<or> status = 504 then
           (if attempt < maxRetries cfg
              then ([], Meshy MeshyError (''Server Error: '' @ message) status (Some errorData))
              else ([], Meshy MeshyError (''Server Error (final): '' @ message) status (Some errorData)))
         else ([], Meshy MeshyError (''Unexpected error: '' @ message) status (Some errorData))))"

text \<open>
  \<open>checkRateLimit()\<close>: prune \<open>requestTimes\<close> to the entries younger than the window; at or
  above the ceiling, wait until the oldest kept entry leaves the window, plus 100 ms. The
  list is not empty on that branch, since the ceiling is positive.
\<close>

definition checkRateLimit :: "state \<Rightarrow> state" where
  "checkRateLimit st =
     (let now = clock st;
          times = filter (\<lambda>time. now - time < rateLimitWindow) (requestTimes st);
          st1 = st\<lparr> requestTimes := times, trace := trace st @ [CheckRateLimit] \<rparr>
      in if pro_requestsPerSecond \<le> length times then
           (case times of
              [] \<Rightarrow> st1
            | oldestRequest # _ \<Rightarrow>
                let waitTime = rateLimitWindow - (now - oldestRequest)
                in if 0 < waitTime
                   then sleep (waitTime + 100) (emit (Warn (RateLimitApproaching waitTime)) st1)
                   else st1)
         else st1)"

text \<open>
  \<open>request(endpoint, options)\<close>. \<open>record_success\<close> is the statement
  \<open>this.requestTimes.push(Date.now())\<close>; \<open>try_attempt\<close> is the \<open>try\<close> block of one iteration
  (the push comes before \<open>response.json()\<close> is awaited); \<open>on_catch\<close> is the \<open>catch\<close> block
  after \<open>lastError = error\<close>; \<open>request_loop\<close> is the \<open>for\<close> loop from a given attempt index,
  followed by the final \<open>throw\<close>; \<open>request\<close> runs \<open>checkRateLimit\<close> and then the loop from
  attempt 0.
\<close>

definition record_success :: "state \<Rightarrow> state" where
  "record_success st =
     st\<lparr> requestTimes := requestTimes st @ [clock st], trace := trace st @ [Push (clock st)] \<rparr>"

definition try_attempt ::
  "(string \<Rightarrow> parsed) \<Rightarrow> RetryConfig \<Rightarrow> (nat \<Rightarrow> 'a exchange) \<Rightarrow> nat \<Rightarrow> state
     \<Rightarrow> (error + 'a) \<times> state" where
  "try_attempt parse cfg net attempt st =
     (case do_fetch net attempt st of
        (Rejects m, st1) \<Rightarrow> (Inl (FetchError m), st1)
      | (Resolves response, st1) \<Rightarrow>
          if \<not> ok response then
            (let (warnings, e) = handleErrorResponse parse cfg response attempt
             in (Inl e, st1\<lparr> trace := trace st1 @ map Warn warnings \<rparr>))
          else
            (let st2 = record_success st1
             in case rs_json response of
                  None \<Rightarrow> (Inl JsonError, st2)
                | Some v \<Rightarrow> (Inr v, st2)))"

definition on_catch :: "RetryConfig \<Rightarrow> real \<Rightarrow> nat \<Rightarrow> state \<Rightarrow> state" where
  "on_catch cfg rnd attempt st =
     (if attempt < maxRetries cfg then
        (let delay = calculateBackoff cfg attempt rnd
         in sleep (timeout_ms delay)
              (emit (Warn (RetryAttempt (attempt + 1) (maxRetries cfg) delay)) st))
      else st)"

function request_loop ::
  "(string \<Rightarrow> parsed) \<Rightarrow> RetryConfig \<Rightarrow> (nat \<Rightarrow> 'a exchange) \<Rightarrow> nat
     \<Rightarrow> error option \<Rightarrow> state \<Rightarrow> (error + 'a) \<times> state" where
  "request_loop parse cfg net attempt lastError st =
     (if attempt \<le> maxRetries cfg then
        (case try_attempt parse cfg net attempt st of
           (Inr v, st1) \<Rightarrow> (Inr v, st1)
         | (Inl e, st1) \<Rightarrow>
             request_loop parse cfg net (Suc attempt) (Some e)
               (on_catch cfg (random (net (fetches st))) attempt st1))
      else
        (case lastError of
           Some e \<Rightarrow> (Inl e, st)
         | None \<Rightarrow> (Inl (Error ''Request failed after retries''), st)))"
  by pat_completeness auto
termination
  by (relation "measure (\<lambda>(parse, cfg, net, attempt, lastError, st). Suc (maxRetries cfg) - attempt)") auto

declare request_loop.simps [simp del]

definition request ::
  "(string \<Rightarrow> parsed) \<Rightarrow> RetryConfig \<Rightarrow> (nat \<Rightarrow> 'a exchange) \<Rightarrow> state
     \<Rightarrow> (error + 'a) \<times> state" where
  "request parse cfg net st = request_loop parse cfg net 0 None (checkRateLimit st)"

text \<open>A client just constructed, at time 0.\<close>

definition fresh :: state where
  "fresh = \<lparr> clock = 0, fetches = 0, requestTimes = [], trace = [] \<rparr>"

section \<open>Calls in flight together\<close>

text \<open>
  \<open>request\<close> awaits between its admission check and its loop, so calls made on one client
  without awaiting each other interleave there. A schedule lists what the client does
  next: \<open>Admit\<close> is the \<open>checkRateLimit\<close> of a call, \<open>Perform\<close> is the retry loop of a call
  already admitted, \<open>Idle d\<close> lets \<open>d\<close> milliseconds pass. In a sequential schedule every
  \<open>Admit\<close> is followed at once by its own \<open>Perform\<close>: that pair is one call of \<open>request\<close>.
  \<open>in_window\<close> counts the entries of \<open>requestTimes\<close> younger than the window at the current
  time; \<open>decodes\<close> says that the exchange, if it is a 2xx response, has a body that decodes.
\<close>

datatype step = Admit | Perform | Idle nat

fun run ::
  "(string \<Rightarrow> parsed) \<Rightarrow> RetryConfig \<Rightarrow> (nat \<Rightarrow> 'a exchange) \<Rightarrow> step list
     \<Rightarrow> state \<Rightarrow> state" where
  "run parse cfg net [] st = st"
| "run parse cfg net (Admit # ss) st = run parse cfg net ss (checkRateLimit st)"
| "run parse cfg net (Perform # ss) st =
     run parse cfg net ss (snd (request_loop parse cfg net 0 None st))"
| "run parse cfg net (Idle d # ss) st = run parse cfg net ss (st\<lparr> clock := clock st + int d \<rparr>)"

fun sequential :: "step list \<Rightarrow> bool" where
  "sequential [] = True"
| "sequential (Idle d # ss) = sequential ss"
| "sequential (Admit # Perform # ss) = sequential ss"
| "sequential ss = False"

definition in_window :: "state \<Rightarrow> nat" where
  "in_window st = length (filter (\<lambda>time. clock st - time < rateLimitWindow) (requestTimes st))"

definition decodes :: "'a exchange \<Rightarrow> bool" where
  "decodes x = (case outcome x of Rejects m \<Rightarrow> True | Resolves r \<Rightarrow> ok r \<longrightarrow> rs_json r \<noteq> None)"

text \<open>
  Readings of the log: numbers of fetches, pushes and admission checks, the sleeps in
  order, and whether every fetch has an admission check between it and the fetch before it.
\<close>

fun is_Fetch :: "event \<Rightarrow> bool" where
  "is_Fetch (Fetch n) = True"
| "is_Fetch e = False"

fun is_Push :: "event \<Rightarrow> bool" where
  "is_Push (Push t) = True"
| "is_Push e = False"

definition attempts :: "event list \<Rightarrow> nat" where
  "attempts tr = length (filter is_Fetch tr)"

definition pushes :: "event list \<Rightarrow> nat" where
  "pushes tr = length (filter is_Push tr)"

definition checks :: "event list \<Rightarrow> nat" where
  "checks tr = length (filter (\<lambda>e. e = CheckRateLimit) tr)"

fun sleeps :: "event list \<Rightarrow> int list" where
  "sleeps [] = []"
| "sleeps (Sleep ms # es) = ms # sleeps es"
| "sleeps (e # es) = sleeps es"

fun checked_before_each :: "bool \<Rightarrow> event list \<Rightarrow> bool" where
  "checked_before_each c [] = True"
| "checked_before_each c (CheckRateLimit # es) = checked_before_each True es"
| "checked_before_each c (Fetch n # es) = (c \<and> checked_before_each False es)"
| "checked_before_each c (e # es) = checked_before_each c es"

section \<open>Text-to-3D client\<close>

text \<open>
  \<open>text-to-3d.ts\<close>. A task as the pollers read it: id, status, progress, and the fields
  the pollers never look at as the record's extension. The status type is the union of the
  literals the task interfaces declare; the JSON of a response is cast to the interface
  without a check. \<open>getTask(taskId, retryOn404)\<close> calls \<open>fetch\<close> directly, not \<open>request\<close>;
  \<open>pollTask(taskId, maxRetries, intervalMs)\<close> calls \<open>getTask(taskId)\<close> on every tick. The
  task id is part of the URL only: the network answers the fetches in the order they are
  made.
\<close>

record task =
  task_id :: string
  task_status :: task_status
  task_progress :: "nat option"

function getTask_loop ::
  "nat \<Rightarrow> (nat \<Rightarrow> 'a exchange) \<Rightarrow> nat \<Rightarrow> state \<Rightarrow> (error + 'a) \<times> state" where
  "getTask_loop max_retries net attempt st =
     (if attempt \<le> max_retries then
        (case do_fetch net attempt st of
           (Rejects m, st1) \<Rightarrow> (Inl (FetchError m), st1)
         | (Resolves response, st1) \<Rightarrow>
             if ok response then
               (case rs_json response of
                  None \<Rightarrow> (Inl JsonError, st1)
                | Some t \<Rightarrow> (Inr t, st1))
             else if rs_status response = 404 \<and> attempt < max_retries then
               getTask_loop max_retries net (Suc attempt) (sleep (2000 * (int attempt + 1)) st1)
             else
               (Inl (Error (''Failed to get task: '' @ show_nat (rs_status response) @ '' - ''
                            @ rs_text response)), st1))
      else (Inl (Error (''Task not found after '' @ show_nat (max_retries + 1) @ '' attempts'')), st))"
  by pat_completeness auto
termination
  by (relation "measure (\<lambda>(max_retries, net, attempt, st). Suc max_retries - attempt)") auto

declare getTask_loop.simps [simp del]

definition getTask ::
  "string \<Rightarrow> bool \<Rightarrow> (nat \<Rightarrow> 'a exchange) \<Rightarrow> state \<Rightarrow> (error + 'a) \<times> state" where
  "getTask taskId retryOn404 net st = getTask_loop (if retryOn404 then 3 else 0) net 0 st"

function pollTask_loop ::
  "string \<Rightarrow> nat \<Rightarrow> int \<Rightarrow> (nat \<Rightarrow> ('m task_scheme) exchange) \<Rightarrow> nat \<Rightarrow> state
     \<Rightarrow> (error + 'm task_scheme) \<times> state" where
  "pollTask_loop taskId max_retries intervalMs net i st =
     (if i < max_retries then
        (case getTask taskId True net st of
           (Inl e, st1) \<Rightarrow> (Inl e, st1)
         | (Inr t, st1) \<Rightarrow>
             if task_status t = SUCCEEDED then (Inr t, st1)
             else if task_status t = FAILED \<or> task_status t = EXPIRED then
               (Inl (Error (''Task '' @ taskId @ '' failed with status: ''
                            @ status_text (task_status t))), st1)
             else pollTask_loop taskId max_retries intervalMs net (Suc i) (sleep intervalMs st1))
      else (Inl (Error (''Task '' @ taskId @ '' timed out'')), st))"
  by pat_completeness auto
termination
  by (relation "measure (\<lambda>(taskId, max_retries, intervalMs, net, i, st). max_retries - i)") auto

declare pollTask_loop.simps [simp del]

definition pollTask ::
  "string \<Rightarrow> nat \<Rightarrow> int \<Rightarrow> (nat \<Rightarrow> ('m task_scheme) exchange) \<Rightarrow> state
     \<Rightarrow> (error + 'm task_scheme) \<times> state" where
  "pollTask taskId max_retries intervalMs net st = pollTask_loop taskId max_retries intervalMs net 0 st"

section \<open>Animation client\<close>

text \<open>
  \<open>animations.ts\<close>: \<open>getAnimationTask\<close> goes through \<open>request\<close>, with the client's retry
  configuration; \<open>pollAnimationTask\<close> has the loop of \<open>pollTask\<close> with CANCELED in the place
  of EXPIRED and its own messages.
\<close>

definition getAnimationTask ::
  "(string \<Rightarrow> parsed) \<Rightarrow> RetryConfig \<Rightarrow> string \<Rightarrow> (nat \<Rightarrow> 'a exchange) \<Rightarrow> state
     \<Rightarrow> (error + 'a) \<times> state" where
  "getAnimationTask parse cfg taskId net st = request parse cfg net st"

function pollAnimationTask_loop ::
  "(string \<Rightarrow> parsed) \<Rightarrow> RetryConfig \<Rightarrow> string \<Rightarrow> nat \<Rightarrow> int
     \<Rightarrow> (nat \<Rightarrow> ('m task_scheme) exchange) \<Rightarrow> nat \<Rightarrow> state
     \<Rightarrow> (error + 'm task_scheme) \<times> state" where
  "pollAnimationTask_loop parse cfg taskId max_retries intervalMs net i st =
     (if i < max_retries then
        (case getAnimationTask parse cfg taskId net st of
           (Inl e, st1) \<Rightarrow> (Inl e, st1)
         | (Inr t, st1) \<Rightarrow>
             if task_status t = SUCCEEDED then (Inr t, st1)
             else if task_status t = FAILED \<or> task_status t = CANCELED then
               (Inl (Error (''Animation task '' @ taskId @ '' failed: ''
                            @ status_text (task_status t))), st1)
             else pollAnimationTask_loop parse cfg taskId max_retries intervalMs net (Suc i)
                    (sleep intervalMs st1))
      else (Inl (Error (''Animation task '' @ taskId @ '' timed out'')), st))"
  by pat_completeness auto
termination
  by (relation "measure (\<lambda>(parse, cfg, taskId, max_retries, intervalMs, net, i, st). max_retries - i)") auto

declare pollAnimationTask_loop.simps [simp del]

definition pollAnimationTask ::
  "(string \<Rightarrow> parsed) \<Rightarrow> RetryConfig \<Rightarrow> string \<Rightarrow> nat \<Rightarrow> int
     \<Rightarrow> (nat \<Rightarrow> ('m task_scheme) exchange) \<Rightarrow> state
     \<Rightarrow> (error + 'm task_scheme) \<times> state" where
  "pollAnimationTask parse cfg taskId max_retries intervalMs net st =
     pollAnimationTask_loop parse cfg taskId max_retries intervalMs net 0 st"

section \<open>Retexture and rigging clients: polling\<close>

text \<open>
  \<open>retexture.ts\<close> and \<open>rigging.ts\<close>: \<open>getRetextureTask\<close> and \<open>getRiggingTask\<close> go through
  \<open>request\<close>; \<open>pollRetextureTask\<close> tests FAILED and EXPIRED, \<open>pollRiggingTask\<close> tests FAILED
  and CANCELED, each with its own messages.
\<close>

definition getRetextureTask ::
  "(string \<Rightarrow> parsed) \<Rightarrow> RetryConfig \<Rightarrow> string \<Rightarrow> (nat \<Rightarrow> 'a exchange) \<Rightarrow> state
     \<Rightarrow> (error + 'a) \<times> state" where
  "getRetextureTask parse cfg taskId net st = request parse cfg net st"

function pollRetextureTask_loop ::
  "(string \<Rightarrow> parsed) \<Rightarrow> RetryConfig \<Rightarrow> string \<Rightarrow> nat \<Rightarrow> int
     \<Rightarrow> (nat \<Rightarrow> ('m task_scheme) exchange) \<Rightarrow> nat \<Rightarrow> state
     \<Rightarrow> (error + 'm task_scheme) \<times> state" where
  "pollRetextureTask_loop parse cfg taskId max_retries intervalMs net i st =
     (if i < max_retries then
        (case getRetextureTask parse cfg taskId net st of
           (Inl e, st1) \<Rightarrow> (Inl e, st1)
         | (Inr t, st1) \<Rightarrow>
             if task_status t = SUCCEEDED then (Inr t, st1)
             else if task_status t = FAILED \<or> task_status t = EXPIRED then
               (Inl (Error (''Retexture task '' @ taskId @ '' failed: ''
                            @ status_text (task_status t))), st1)
             else pollRetextureTask_loop parse cfg taskId max_retries intervalMs net (Suc i)
                    (sleep intervalMs st1))
      else (Inl (Error (''Retexture task '' @ taskId @ '' timed out'')), st))"
  by pat_completeness auto
termination
  by (relation "measure (\<lambda>(parse, cfg, taskId, max_retries, intervalMs, net, i, st). max_retries - i)") auto

declare pollRetextureTask_loop.simps [simp del]

definition pollRetextureTask ::
  "(string \<Rightarrow> parsed) \<Rightarrow> RetryConfig \<Rightarrow> string \<Rightarrow> nat \<Rightarrow> int
     \<Rightarrow> (nat \<Rightarrow> ('m task_scheme) exchange) \<Rightarrow> state
     \<Rightarrow> (error + 'm task_scheme) \<times> state" where
  "pollRetextureTask parse cfg taskId max_retries intervalMs net st =
     pollRetextureTask_loop parse cfg taskId max_retries intervalMs net 0 st"

definition getRiggingTask ::
  "(string \<Rightarrow> parsed) \<Rightarrow> RetryConfig \<Rightarrow> string \<Rightarrow> (nat \<Rightarrow> 'a exchange) \<Rightarrow> state
     \<Rightarrow> (error + 'a) \<times> state" where
  "getRiggingTask parse cfg taskId net st = request parse cfg net st"

function pollRiggingTask_loop ::
  "(string \<Rightarrow> parsed) \<Rightarrow> RetryConfig \<Rightarrow> string \<Rightarrow> nat \<Rightarrow> int
     \<Rightarrow> (nat \<Rightarrow> ('m task_scheme) exchange) \<Rightarrow> nat \<Rightarrow> state
     \<Rightarrow> (error + 'm task_scheme) \<times> state" where
  "pollRiggingTask_loop parse cfg taskId max_retries intervalMs net i st =
     (if i < max_retries then
        (case getRiggingTask parse cfg taskId net st of
           (Inl e, st1) \<Rightarrow> (Inl e, st1)
         | (Inr t, st1) \<Rightarrow>
             if task_status t = SUCCEEDED then (Inr t, st1)
             else if task_status t = FAILED \<or> task_status t = CANCELED then
               (Inl (Error (''Rigging task '' @ taskId @ '' failed: ''
                            @ status_text (task_status t))), st1)
             else pollRiggingTask_loop parse cfg taskId max_retries intervalMs net (Suc i)
                    (sleep intervalMs st1))
      else (Inl (Error (''Rigging task '' @ taskId @ '' timed out'')), st))"
  by pat_completeness auto
termination
  by (relation "measure (\<lambda>(parse, cfg, taskId, max_retries, intervalMs, net, i, st). max_retries - i)") auto

declare pollRiggingTask_loop.simps [simp del]

definition pollRiggingTask ::
  "(string \<Rightarrow> parsed) \<Rightarrow> RetryConfig \<Rightarrow> string \<Rightarrow> nat \<Rightarrow> int
     \<Rightarrow> (nat \<Rightarrow> ('m task_scheme) exchange) \<Rightarrow> state
     \<Rightarrow> (error + 'm task_scheme) \<times> state" where
  "pollRiggingTask parse cfg taskId max_retries intervalMs net st =
     pollRiggingTask_loop parse cfg taskId max_retries intervalMs net 0 st"

text \<open>
  The state in which a poll makes its next status fetch when the fetch before returned a
  task to keep polling on, and what the fetch of tick \<open>j\<close> returns when all ticks before it
  continued.
\<close>

definition pollTask_tick :: "string \<Rightarrow> int \<Rightarrow> (nat \<Rightarrow> ('m task_scheme) exchange) \<Rightarrow> state \<Rightarrow> state" where
  "pollTask_tick taskId intervalMs net st = sleep intervalMs (snd (getTask taskId True net st))"

definition pollTask_observes ::
  "string \<Rightarrow> int \<Rightarrow> (nat \<Rightarrow> ('m task_scheme) exchange) \<Rightarrow> state \<Rightarrow> nat
     \<Rightarrow> (error + 'm task_scheme) \<times> state" where
  "pollTask_observes taskId intervalMs net st j =
     getTask taskId True net ((pollTask_tick taskId intervalMs net ^^ j) st)"

definition pollAnimationTask_tick ::
  "(string \<Rightarrow> parsed) \<Rightarrow> RetryConfig \<Rightarrow> string \<Rightarrow> int
     \<Rightarrow> (nat \<Rightarrow> ('m task_scheme) exchange) \<Rightarrow> state \<Rightarrow> state" where
  "pollAnimationTask_tick parse cfg taskId intervalMs net st =
     sleep intervalMs (snd (getAnimationTask parse cfg taskId net st))"

definition pollAnimationTask_observes ::
  "(string \<Rightarrow> parsed) \<Rightarrow> RetryConfig \<Rightarrow> string \<Rightarrow> int
     \<Rightarrow> (nat \<Rightarrow> ('m task_scheme) exchange) \<Rightarrow> state \<Rightarrow> nat
     \<Rightarrow> (error + 'm task_scheme) \<times> state" where
  "pollAnimationTask_observes parse cfg taskId intervalMs net st j =
     getAnimationTask parse cfg taskId net ((pollAnimationTask_tick parse cfg taskId intervalMs net ^^ j) st)"

definition pollRetextureTask_tick ::
  "(string \<Rightarrow> parsed) \<Rightarrow> RetryConfig \<Rightarrow> string \<Rightarrow> int
     \<Rightarrow> (nat \<Rightarrow> ('m task_scheme) exchange) \<Rightarrow> state \<Rightarrow> state" where
  "pollRetextureTask_tick parse cfg taskId intervalMs net st =
     sleep intervalMs (snd (getRetextureTask parse cfg taskId net st))"

definition pollRetextureTask_observes ::
  "(string \<Rightarrow> parsed) \<Rightarrow> RetryConfig \<Rightarrow> string \<Rightarrow> int
     \<Rightarrow> (nat \<Rightarrow> ('m task_scheme) exchange) \<Rightarrow> state \<Rightarrow> nat
     \<Rightarrow> (error + 'm task_scheme) \<times> state" where
  "pollRetextureTask_observes parse cfg taskId intervalMs net st j =
     getRetextureTask parse cfg taskId net ((pollRetextureTask_tick parse cfg taskId intervalMs net ^^ j) st)"

definition pollRiggingTask_tick ::
  "(string \<Rightarrow> parsed) \<Rightarrow> RetryConfig \<Rightarrow> string \<Rightarrow> int
     \<Rightarrow> (nat \<Rightarrow> ('m task_scheme) exchange) \<Rightarrow> state \<Rightarrow> state" where
  "pollRiggingTask_tick parse cfg taskId intervalMs net st =
     sleep intervalMs (snd (getRiggingTask parse cfg taskId net st))"

definition pollRiggingTask_observes ::
  "(string \<Rightarrow> parsed) \<Rightarrow> RetryConfig \<Rightarrow> string \<Rightarrow> int
     \<Rightarrow> (nat \<Rightarrow> ('m task_scheme) exchange) \<Rightarrow> state \<Rightarrow> nat
     \<Rightarrow> (error + 'm task_scheme) \<times> state" where
  "pollRiggingTask_observes parse cfg taskId intervalMs net st j =
     getRiggingTask parse cfg taskId net ((pollRiggingTask_tick parse cfg taskId intervalMs net ^^ j) st)"

text \<open>
  An exchange answered 404; the outcome of the last fetch of a \<open>getTask\<close> call (the fetch
  that is not retried), leaving the client in \<open>st'\<close>; and the results of \<open>getTask\<close> and
  the status fetches through \<open>request\<close> after which the pollers sleep and poll again:
  \<open>keeps_polling\<close> for \<open>pollTask\<close> and \<open>pollRetextureTask\<close>, \<open>keeps_polling_animation\<close> for
  \<open>pollAnimationTask\<close> and \<open>pollRiggingTask\<close>.
\<close>

definition is404 :: "'a exchange \<Rightarrow> bool" where
  "is404 x = (case outcome x of Rejects m \<Rightarrow> False | Resolves r \<Rightarrow> rs_status r = 404)"

definition tick_outcome :: "'a exchange \<Rightarrow> state \<Rightarrow> (error + 'a) \<times> state" where
  "tick_outcome x st' =
     (case outcome x of
        Rejects m \<Rightarrow> (Inl (FetchError m), st')
      | Resolves r \<Rightarrow>
          if ok r then (case rs_json r of None \<Rightarrow> (Inl JsonError, st') | Some t \<Rightarrow> (Inr t, st'))
          else (Inl (Error (''Failed to get task: '' @ show_nat (rs_status r) @ '' - '' @ rs_text r)), st'))"

definition keeps_polling :: "(error + 'm task_scheme) \<Rightarrow> bool" where
  "keeps_polling r =
     (case r of
        Inl e \<Rightarrow> False
      | Inr t \<Rightarrow> task_status t \<noteq> SUCCEEDED \<and> task_status t \<noteq> FAILED \<and> task_status t \<noteq> EXPIRED)"

definition keeps_polling_animation :: "(error + 'm task_scheme) \<Rightarrow> bool" where
  "keeps_polling_animation r =
     (case r of
        Inl e \<Rightarrow> False
      | Inr t \<Rightarrow> task_status t \<noteq> SUCCEEDED \<and> task_status t \<noteq> FAILED \<and> task_status t \<noteq> CANCELED)"

text \<open>
  What one run of the retry loop does to the client, as a predicate on the state before
  and the outcome: time and the count of fetches do not go back, the loop runs no
  admission check, and the window gains its one timestamp exactly on success.
\<close>

definition loop_effect :: "state \<Rightarrow> (error + 'a) \<times> state \<Rightarrow> bool" where
  "loop_effect st out =
     (clock st \<le> clock (snd out) \<and> fetches st \<le> fetches (snd out)
      \<and> (\<exists>evs. trace (snd out) = trace st @ evs \<and> checks evs = 0
            \<and> (case fst out of
                  Inr v \<Rightarrow> requestTimes (snd out) = requestTimes st @ [clock (snd out)] \<and> pushes evs = 1
                | Inl e \<Rightarrow> requestTimes (snd out) = requestTimes st \<and> pushes evs = 0)))"

section \<open>Sample inputs\<close>

text \<open>
  A \<open>JSON.parse\<close> that rejects every body, one that knows the JSON text \<open>null\<close> only, a callback that always answers with a task id,
  a server that answers a given list of exchanges and then repeats a last one.
\<close>

definition never_parses :: "string \<Rightarrow> parsed" where
  "never_parses body = ParseThrows"

definition parses_null :: "string \<Rightarrow> parsed" where
  "parses_null body = (if body = ''null'' then ParsedNull else ParseThrows)"

definition callback_ok :: "http_request \<Rightarrow> error + create_reply" where
  "callback_ok rq = Inr \<lparr> reply_result = Some ''r'', reply_id = None \<rparr>"

definition stream_of :: "'a exchange list \<Rightarrow> 'a exchange \<Rightarrow> nat \<Rightarrow> 'a exchange" where
  "stream_of xs d i = (if i < length xs then xs ! i else d)"

definition replies :: "nat \<Rightarrow> 'a option \<Rightarrow> 'a exchange" where
  "replies s v = \<lparr> outcome = Resolves \<lparr> rs_status = s, rs_text = [], rs_json = v \<rparr>,
                   latency = 5, random = 1 / 2 \<rparr>"

definition a_task :: "task_status \<Rightarrow> task" where
  "a_task s = \<lparr> task_id = ''t1'', task_status = s, task_progress = None \<rparr>"

section \<open>Validation before the network\<close>

text \<open>
  C10. When neither \<open>input_task_id\<close> nor \<open>model_url\<close> is supplied, or neither
  \<open>text_style_prompt\<close> nor \<open>image_style_url\<close> is supplied, \<open>createRetextureTask\<close>
  fails with one of its two descriptive errors, and the request callback is not invoked:
  the list of callback invocations is empty, whatever the callback is.
\<close>

theorem createRetextureTask_validates_first:
  assumes "(input_task_id params = None \<and> model_url params = None)
         \<or> (text_style_prompt params = None \<and> image_style_url params = None)"
  shows "createRetextureTask apiKey baseUrl now params callback
           = (Inl (Error ''Either input_task_id or model_url is required''), [])
       \<or> createRetextureTask apiKey baseUrl now params callback
           = (Inl (Error ''Either text_style_prompt or image_style_url is required''), [])"
  using assms by (auto simp: createRetextureTask_def)

theorem createRetextureTask_validates_first_witness:
  "((input_task_id \<lparr> input_task_id = Some ''t1'', model_url = None, text_style_prompt = None,
        image_style_url = None, ai_model = None, enable_original_uv = None, enable_pbr = None \<rparr> = None
      \<and> model_url \<lparr> input_task_id = Some ''t1'', model_url = None, text_style_prompt = None,
        image_style_url = None, ai_model = None, enable_original_uv = None, enable_pbr = None \<rparr> = None)
    \<or> (text_style_prompt \<lparr> input_task_id = Some ''t1'', model_url = None, text_style_prompt = None,
        image_style_url = None, ai_model = None, enable_original_uv = None, enable_pbr = None \<rparr> = None
      \<and> image_style_url \<lparr> input_task_id = Some ''t1'', model_url = None, text_style_prompt = None,
        image_style_url = None, ai_model = None, enable_original_uv = None, enable_pbr = None \<rparr> = None))
   \<and> (createRetextureTask ''key'' ''https://api.meshy.ai/openapi/v1'' 0
      \<lparr> input_task_id = Some ''t1'', model_url = None, text_style_prompt = None,
        image_style_url = None, ai_model = None, enable_original_uv = None, enable_pbr = None \<rparr>
      callback_ok
        = (Inl (Error ''Either input_task_id or model_url is required''), [])
     \<or> createRetextureTask ''key'' ''https://api.meshy.ai/openapi/v1'' 0
      \<lparr> input_task_id = Some ''t1'', model_url = None, text_style_prompt = None,
        image_style_url = None, ai_model = None, enable_original_uv = None, enable_pbr = None \<rparr>
      callback_ok
        = (Inl (Error ''Either text_style_prompt or image_style_url is required''), []))"
proof -
  let ?p = "\<lparr> input_task_id = Some ''t1'', model_url = None, text_style_prompt = None,
        image_style_url = None, ai_model = None, enable_original_uv = None, enable_pbr = None \<rparr>"
  have h: "(input_task_id ?p = None \<and> model_url ?p = None)
         \<or> (text_style_prompt ?p = None \<and> image_style_url ?p = None)"
    by simp
  from createRetextureTask_validates_first [OF h] h show ?thesis
    by blast
qed

section \<open>Backoff delay\<close>

text \<open>\<open>Number.MAX_VALUE\<close> as a numeral, for evaluation.\<close>

lemma MAX_VALUE_numeral [code]:
  "MAX_VALUE = 179769313486231570814527423731704356798070567525844996598917476803157260780028538760589558632766878171540458953514382464234321326889464182768467546703537516986049910576551282076245490090389328944075868508455133942304583236903222948165808559332123348274797826204144723168738177180919299881250404026184124858368"
  by (simp add: MAX_VALUE_def)

lemma scaled_mono:
  fixes x y k :: real
  assumes "x \<le> y" "0 \<le> k"
  shows "x + k * x \<le> y + k * y"
proof -
  have "k * x \<le> k * y" by (rule mult_left_mono [OF assms])
  with assms(1) show ?thesis by linarith
qed

lemma exp_mono:
  fixes b r :: real
  assumes b: "0 \<le> b" and r: "0 \<le> r" and a: "a \<le> a'"
  shows "b * 2 ^ a + r * (3 / 10) * (b * 2 ^ a) \<le> b * 2 ^ a' + r * (3 / 10) * (b * 2 ^ a')"
proof -
  have p: "(2::real) ^ a \<le> 2 ^ a'" using a by (simp add: power_increasing)
  have x: "b * 2 ^ a \<le> b * 2 ^ a'" by (rule mult_left_mono [OF p b])
  have k: "0 \<le> r * (3 / 10)" using r by simp
  show ?thesis by (rule scaled_mono [OF x k])
qed

lemma exp_lower:
  fixes b r :: real
  assumes b: "0 \<le> b" and r: "0 \<le> r"
  shows "b \<le> b * 2 ^ a + r * (3 / 10) * (b * 2 ^ a)"
proof -
  have "b * 2 ^ 0 + r * (3 / 10) * (b * 2 ^ 0) \<le> b * 2 ^ a + r * (3 / 10) * (b * 2 ^ a)"
    by (rule exp_mono [OF b r]) simp
  then have le: "b + r * (3 / 10) * b \<le> b * 2 ^ a + r * (3 / 10) * (b * 2 ^ a)"
    by simp
  have "0 \<le> r * (3 / 10)" using r by simp
  then have "0 \<le> r * (3 / 10) * b" using b by (rule mult_nonneg_nonneg)
  with le show ?thesis by linarith
qed

lemma MAX_VALUE_ge_1: "1 \<le> MAX_VALUE"
  by (simp add: MAX_VALUE_def)

lemma to_number_Num: "0 \<le> x \<Longrightarrow> x \<le> MAX_VALUE \<Longrightarrow> to_number x = Num x"
  using MAX_VALUE_ge_1 by (simp add: to_number_def)

lemma calculateBackoff_finite:
  assumes b: "0 \<le> baseDelay cfg" and r: "0 \<le> rnd" "rnd < 1" and f: "finite_backoff cfg attempt"
  shows "calculateBackoff cfg attempt rnd
           = Num (real_of_int \<lfloor>min (baseDelay cfg * 2 ^ attempt
                                        + rnd * (3 / 10) * (baseDelay cfg * 2 ^ attempt))
                                     (maxDelay cfg)\<rfloor>)"
proof -
  define x where "x = baseDelay cfg * 2 ^ attempt"
  define c where "c = rnd * (3 / 10)"
  have a: "attempt < 1024" and m: "x * (13 / 10) \<le> MAX_VALUE"
    using f by (simp_all add: finite_backoff_def x_def)
  have x0: "0 \<le> x" using b by (simp add: x_def)
  have xm: "x \<le> MAX_VALUE" using x0 m by simp
  have c0: "0 \<le> c" using r(1) by (simp add: c_def)
  have c1: "c \<le> 3 / 10" using r(2) by (simp add: c_def)
  have cm: "c \<le> MAX_VALUE" using c1 MAX_VALUE_ge_1 by simp
  have j0: "0 \<le> c * x" using c0 x0 by (rule mult_nonneg_nonneg)
  have j1: "c * x \<le> 3 / 10 * x" by (rule mult_right_mono [OF c1 x0])
  have jm: "c * x \<le> MAX_VALUE" using j1 m x0 by simp
  have s0: "0 \<le> x + c * x" using x0 j0 by simp
  have sm: "x + c * x \<le> MAX_VALUE" using j1 m by simp
  have e: "js_times (Num (baseDelay cfg)) (js_pow2 attempt) = Num x"
    using a to_number_Num [OF x0 xm] by (simp add: js_pow2_def x_def)
  have k: "js_times (Num rnd) (Num (3 / 10)) = Num c"
    using to_number_Num [OF c0 cm] by (simp add: c_def)
  have j: "js_times (Num c) (Num x) = Num (c * x)"
    using to_number_Num [OF j0 jm] by simp
  have s: "js_plus (Num x) (Num (c * x)) = Num (x + c * x)"
    using to_number_Num [OF s0 sm] by simp
  have "calculateBackoff cfg attempt rnd = Num (real_of_int \<lfloor>min (x + c * x) (maxDelay cfg)\<rfloor>)"
    unfolding calculateBackoff_def Let_def e k j s by simp
  then show ?thesis by (simp add: x_def c_def)
qed

lemma finite_backoff_earlier:
  assumes "0 \<le> baseDelay cfg" "attempt \<le> attempt'" "finite_backoff cfg attempt'"
  shows "finite_backoff cfg attempt"
proof -
  have p: "(2::real) ^ attempt \<le> 2 ^ attempt'" using assms(2) by (simp add: power_increasing)
  have "baseDelay cfg * 2 ^ attempt \<le> baseDelay cfg * 2 ^ attempt'"
    by (rule mult_left_mono [OF p assms(1)])
  then have "baseDelay cfg * 2 ^ attempt * (13 / 10) \<le> baseDelay cfg * 2 ^ attempt' * (13 / 10)"
    by simp
  with assms(2,3) show ?thesis by (simp add: finite_backoff_def)
qed

text \<open>
  C3, as stated, fails in four ways. With \<open>maxDelay < baseDelay\<close> the clamp wins and the
  delay is \<open>maxDelay\<close>, below \<open>baseDelay\<close>. At the default configuration, attempt index 1015
  and \<open>Math.random() = 0\<close>, \<open>exponential\<close> is \<open>Infinity\<close>, \<open>jitter\<close> is \<open>0 * Infinity = NaN\<close> and
  the delay is \<open>NaN\<close>, which is within no bounds. With \<open>baseDelay = 0.5\<close> the floor gives 0,
  and with a negative \<open>baseDelay\<close> the jitter pushes the delay further below it.
\<close>

theorem calculateBackoff_out_of_bounds:
  "calculateBackoff \<lparr> maxRetries = 3, baseDelay = 1000, maxDelay = 500, retryOn = [429, 500, 502, 503, 504] \<rparr> 0 0
     = Num 500
   \<and> calculateBackoff DEFAULT_RETRY_CONFIG 1015 0 = NaN
   \<and> calculateBackoff \<lparr> maxRetries = 3, baseDelay = 1 / 2, maxDelay = 10000, retryOn = [429, 500, 502, 503, 504] \<rparr> 0 0
     = Num 0
   \<and> calculateBackoff \<lparr> maxRetries = 3, baseDelay = - 1000, maxDelay = 10000, retryOn = [429, 500, 502, 503, 504] \<rparr> 0 (1 / 2)
     = Num (- 1150)"
  by (simp add: calculateBackoff_def DEFAULT_RETRY_CONFIG_def js_pow2_def to_number_def
                MAX_VALUE_def Let_def)

text \<open>
  C3, amended. For a configuration whose \<open>baseDelay\<close> is a whole non-negative number of
  milliseconds not above \<open>maxDelay\<close>, every value \<open>rnd\<close> of \<open>Math.random()\<close> (in \<open>[0, 1)\<close>)
  and every attempt index at which \<open>exponential + jitter\<close> cannot overflow
  (\<open>attempt < 1024\<close> and \<open>1.3 * baseDelay * 2^attempt \<le> Number.MAX_VALUE\<close>): the delay is a
  whole number \<open>d\<close> with \<open>baseDelay \<le> d \<le> maxDelay\<close>, and for the same \<open>rnd\<close> the delay at
  any later attempt index in that range is at least \<open>d\<close>.
\<close>

theorem calculateBackoff_bounds:
  assumes "baseDelay cfg = real_of_int b" "0 \<le> b" "baseDelay cfg \<le> maxDelay cfg"
    "0 \<le> rnd" "rnd < 1" "finite_backoff cfg attempt"
  shows "\<exists>d. calculateBackoff cfg attempt rnd = Num (real_of_int d)
           \<and> baseDelay cfg \<le> real_of_int d \<and> real_of_int d \<le> maxDelay cfg
           \<and> (\<forall>attempt'. attempt \<le> attempt' \<and> finite_backoff cfg attempt'
                 \<longrightarrow> (\<exists>d'. calculateBackoff cfg attempt' rnd = Num (real_of_int d') \<and> d \<le> d'))"
proof -
  let ?e = "\<lambda>a. baseDelay cfg * 2 ^ a + rnd * (3 / 10) * (baseDelay cfg * 2 ^ a)"
  let ?d = "\<lambda>a. \<lfloor>min (?e a) (maxDelay cfg)\<rfloor>"
  have b0: "0 \<le> baseDelay cfg" using assms(1,2) by simp
  have cb: "calculateBackoff cfg a rnd = Num (real_of_int (?d a))" if "finite_backoff cfg a" for a
    by (rule calculateBackoff_finite [OF b0 assms(4,5) that])
  have "real_of_int b \<le> min (?e attempt) (maxDelay cfg)"
    using exp_lower [OF b0 assms(4), of attempt] assms(1,3) by simp
  then have "b \<le> ?d attempt" by (simp add: le_floor_iff)
  then have lo: "baseDelay cfg \<le> real_of_int (?d attempt)" using assms(1) by simp
  have "real_of_int (?d attempt) \<le> min (?e attempt) (maxDelay cfg)" by (rule of_int_floor_le)
  then have hi: "real_of_int (?d attempt) \<le> maxDelay cfg" by simp
  have mono: "\<forall>attempt'. attempt \<le> attempt' \<and> finite_backoff cfg attempt'
                 \<longrightarrow> (\<exists>d'. calculateBackoff cfg attempt' rnd = Num (real_of_int d') \<and> ?d attempt \<le> d')"
  proof (intro allI impI)
    fix a' assume h: "attempt \<le> a' \<and> finite_backoff cfg a'"
    then have "?e attempt \<le> ?e a'" using exp_mono [OF b0 assms(4)] by blast
    then have "min (?e attempt) (maxDelay cfg) \<le> min (?e a') (maxDelay cfg)" by simp
    then have "?d attempt \<le> ?d a'" by (rule floor_mono)
    with cb [of a'] h
    show "\<exists>d'. calculateBackoff cfg a' rnd = Num (real_of_int d') \<and> ?d attempt \<le> d'" by blast
  qed
  from cb [OF assms(6)] lo hi mono show ?thesis by blast
qed


theorem calculateBackoff_bounds_witness:
  "baseDelay DEFAULT_RETRY_CONFIG = real_of_int 1000 \<and> (0::int) \<le> 1000
   \<and> baseDelay DEFAULT_RETRY_CONFIG \<le> maxDelay DEFAULT_RETRY_CONFIG \<and> (0::real) \<le> 1 / 2 \<and> (1 / 2 :: real) < 1
   \<and> finite_backoff DEFAULT_RETRY_CONFIG 2 \<and> finite_backoff DEFAULT_RETRY_CONFIG 3
   \<and> calculateBackoff DEFAULT_RETRY_CONFIG 2 (1 / 2) = Num 4600
   \<and> calculateBackoff DEFAULT_RETRY_CONFIG 3 (1 / 2) = Num 9200
   \<and> (\<exists>d. calculateBackoff DEFAULT_RETRY_CONFIG 2 (1 / 2) = Num (real_of_int d)
           \<and> baseDelay DEFAULT_RETRY_CONFIG \<le> real_of_int d
           \<and> real_of_int d \<le> maxDelay DEFAULT_RETRY_CONFIG
           \<and> (\<exists>d'. calculateBackoff DEFAULT_RETRY_CONFIG 3 (1 / 2) = Num (real_of_int d') \<and> d \<le> d'))"
proof -
  have h1: "baseDelay DEFAULT_RETRY_CONFIG = real_of_int 1000" by (simp add: DEFAULT_RETRY_CONFIG_def)
  have h2: "(0::int) \<le> 1000" by simp
  have h3: "baseDelay DEFAULT_RETRY_CONFIG \<le> maxDelay DEFAULT_RETRY_CONFIG"
    by (simp add: DEFAULT_RETRY_CONFIG_def)
  have h4: "(0::real) \<le> 1 / 2" by simp
  have h5: "(1 / 2 :: real) < 1" by simp
  have h6: "finite_backoff DEFAULT_RETRY_CONFIG 2"
    by (simp add: finite_backoff_def DEFAULT_RETRY_CONFIG_def MAX_VALUE_def)
  have h7: "finite_backoff DEFAULT_RETRY_CONFIG 3"
    by (simp add: finite_backoff_def DEFAULT_RETRY_CONFIG_def MAX_VALUE_def)
  have v2: "calculateBackoff DEFAULT_RETRY_CONFIG 2 (1 / 2) = Num 4600"
    by (simp add: calculateBackoff_def DEFAULT_RETRY_CONFIG_def js_pow2_def to_number_def
                  MAX_VALUE_def Let_def)
  have v3: "calculateBackoff DEFAULT_RETRY_CONFIG 3 (1 / 2) = Num 9200"
    by (simp add: calculateBackoff_def DEFAULT_RETRY_CONFIG_def js_pow2_def to_number_def
                  MAX_VALUE_def Let_def)
  from calculateBackoff_bounds [OF h1 h2 h3 h4 h5 h6] obtain d where
    d: "calculateBackoff DEFAULT_RETRY_CONFIG 2 (1 / 2) = Num (real_of_int d)"
       "baseDelay DEFAULT_RETRY_CONFIG \<le> real_of_int d"
       "real_of_int d \<le> maxDelay DEFAULT_RETRY_CONFIG"
       "\<forall>attempt'. 2 \<le> attempt' \<and> finite_backoff DEFAULT_RETRY_CONFIG attempt'
            \<longrightarrow> (\<exists>d'. calculateBackoff DEFAULT_RETRY_CONFIG attempt' (1 / 2) = Num (real_of_int d')
                      \<and> d \<le> d')"
    by blast
  from d(4) h7 have "\<exists>d'. calculateBackoff DEFAULT_RETRY_CONFIG 3 (1 / 2) = Num (real_of_int d') \<and> d \<le> d'"
    by simp
  with d(1,2,3) h1 h2 h3 h4 h5 h6 h7 v2 v3 show ?thesis by blast
qed


section \<open>Error classification\<close>

text \<open>
  C9, as stated, fails: for status 500 and one body, the error built at attempt 0 and the
  one built at attempt 3 of a client with \<open>maxRetries = 3\<close> differ (in their message); a 429
  below \<open>maxRetries\<close> prints a warning, which is a side effect; and a body that is the JSON
  text \<open>null\<close> ends in a \<open>TypeError\<close>, an error with no status at all.
\<close>

theorem handleErrorResponse_depends_on_attempt:
  "snd (handleErrorResponse never_parses DEFAULT_RETRY_CONFIG
          \<lparr> rs_status = 500, rs_text = ''boom'', rs_json = (None :: unit option) \<rparr> 0)
     \<noteq> snd (handleErrorResponse never_parses DEFAULT_RETRY_CONFIG
          \<lparr> rs_status = 500, rs_text = ''boom'', rs_json = (None :: unit option) \<rparr> 3)
   \<and> fst (handleErrorResponse never_parses DEFAULT_RETRY_CONFIG
          \<lparr> rs_status = 429, rs_text = ''slow down'', rs_json = (None :: unit option) \<rparr> 0)
     = [RateLimitedWillRetry]
   \<and> handleErrorResponse parses_null DEFAULT_RETRY_CONFIG
          \<lparr> rs_status = 401, rs_text = ''null'', rs_json = (None :: unit option) \<rparr> 0
     = ([], TypeError)"
  by (simp add: handleErrorResponse_def DEFAULT_RETRY_CONFIG_def Let_def never_parses_def
                parses_null_def error_data_def)


text \<open>
  C9, amended. For two responses with the same status and body text, whatever the
  attempt index and the retry configuration, \<open>handleErrorResponse\<close> throws errors of the
  same class, with the same status code and the same response body; the errors (message
  included) and the warnings logged are identical whenever the two calls agree on whether
  \<open>attempt < maxRetries\<close>, or the status is none of 429, 500, 502, 503, 504. When the body
  does not parse to \<open>null\<close>, the error carries the response's status, and the function logs
  one warning for a 429 below \<open>maxRetries\<close> and nothing otherwise.
\<close>

theorem handleErrorResponse_classification:
  fixes r :: "'a response" and r' :: "'b response"
  assumes "rs_status r = rs_status r'" "rs_text r = rs_text r'"
  shows "err_name (snd (handleErrorResponse parse cfg r attempt))
           = err_name (snd (handleErrorResponse parse cfg' r' attempt'))
       \<and> err_status (snd (handleErrorResponse parse cfg r attempt))
           = err_status (snd (handleErrorResponse parse cfg' r' attempt'))
       \<and> err_body (snd (handleErrorResponse parse cfg r attempt))
           = err_body (snd (handleErrorResponse parse cfg' r' attempt'))
       \<and> (parse (rs_text r) \<noteq> ParsedNull
            \<longrightarrow> err_status (snd (handleErrorResponse parse cfg r attempt)) = Some (rs_status r)
              \<and> fst (handleErrorResponse parse cfg r attempt)
                  = (if rs_status r = 429 \<and> attempt < maxRetries cfg then [RateLimitedWillRetry] else []))
       \<and> ((attempt < maxRetries cfg \<longleftrightarrow> attempt' < maxRetries cfg')
              \<or> rs_status r \<notin> {429, 500, 502, 503, 504}
            \<longrightarrow> handleErrorResponse parse cfg r attempt = handleErrorResponse parse cfg' r' attempt')"
proof (cases "error_data parse (rs_text r)")
  case None
  then show ?thesis
    using assms by (auto simp: handleErrorResponse_def error_data_def split: parsed.splits)
next
  case (Some d)
  show ?thesis
    using assms Some by (simp add: handleErrorResponse_def Let_def)
qed


theorem handleErrorResponse_classification_witness:
  "rs_status \<lparr> rs_status = 429, rs_text = ''boom'', rs_json = (None :: unit option) \<rparr>
     = rs_status \<lparr> rs_status = 429, rs_text = ''boom'', rs_json = (None :: unit option) \<rparr>
   \<and> rs_text \<lparr> rs_status = 429, rs_text = ''boom'', rs_json = (None :: unit option) \<rparr>
     = rs_text \<lparr> rs_status = 429, rs_text = ''boom'', rs_json = (None :: unit option) \<rparr>
   \<and> never_parses (rs_text \<lparr> rs_status = 429, rs_text = ''boom'', rs_json = (None :: unit option) \<rparr>)
     \<noteq> ParsedNull
   \<and> (0 < maxRetries DEFAULT_RETRY_CONFIG \<longleftrightarrow> 1 < maxRetries DEFAULT_RETRY_CONFIG)
   \<and> err_status (snd (handleErrorResponse never_parses DEFAULT_RETRY_CONFIG
        \<lparr> rs_status = 429, rs_text = ''boom'', rs_json = (None :: unit option) \<rparr> 0)) = Some 429
   \<and> fst (handleErrorResponse never_parses DEFAULT_RETRY_CONFIG
        \<lparr> rs_status = 429, rs_text = ''boom'', rs_json = (None :: unit option) \<rparr> 0)
       = [RateLimitedWillRetry]
   \<and> handleErrorResponse never_parses DEFAULT_RETRY_CONFIG
        \<lparr> rs_status = 429, rs_text = ''boom'', rs_json = (None :: unit option) \<rparr> 0
     = handleErrorResponse never_parses DEFAULT_RETRY_CONFIG
        \<lparr> rs_status = 429, rs_text = ''boom'', rs_json = (None :: unit option) \<rparr> 1"
proof -
  let ?r = "\<lparr> rs_status = 429, rs_text = ''boom'', rs_json = (None :: unit option) \<rparr>"
  have h: "0 < maxRetries DEFAULT_RETRY_CONFIG \<longleftrightarrow> 1 < maxRetries DEFAULT_RETRY_CONFIG"
    by (simp add: DEFAULT_RETRY_CONFIG_def)
  have n: "never_parses (rs_text ?r) \<noteq> ParsedNull" by (simp add: never_parses_def)
  have m: "0 < maxRetries DEFAULT_RETRY_CONFIG" by (simp add: DEFAULT_RETRY_CONFIG_def)
  note t = handleErrorResponse_classification
             [of ?r ?r never_parses DEFAULT_RETRY_CONFIG 0 DEFAULT_RETRY_CONFIG 1, OF refl refl]
  from t n have a: "err_status (snd (handleErrorResponse never_parses DEFAULT_RETRY_CONFIG ?r 0))
                      = Some (rs_status ?r)"
    and w: "fst (handleErrorResponse never_parses DEFAULT_RETRY_CONFIG ?r 0)
              = (if rs_status ?r = 429 \<and> 0 < maxRetries DEFAULT_RETRY_CONFIG
                 then [RateLimitedWillRetry] else [])"
    by blast+
  from t h have e: "handleErrorResponse never_parses DEFAULT_RETRY_CONFIG ?r 0
                      = handleErrorResponse never_parses DEFAULT_RETRY_CONFIG ?r 1"
    by blast
  have a': "err_status (snd (handleErrorResponse never_parses DEFAULT_RETRY_CONFIG ?r 0)) = Some 429"
    using a by simp
  have w': "fst (handleErrorResponse never_parses DEFAULT_RETRY_CONFIG ?r 0) = [RateLimitedWillRetry]"
    using w m by simp
  from h n a' w' e show ?thesis by blast
qed

section \<open>The request executor\<close>

lemma pushes_append: "pushes (xs @ ys) = pushes xs + pushes ys"
  by (simp add: pushes_def)

lemma checks_append: "checks (xs @ ys) = checks xs + checks ys"
  by (simp add: checks_def)

lemma attempts_append: "attempts (xs @ ys) = attempts xs + attempts ys"
  by (simp add: attempts_def)

lemma pushes_Warn: "pushes (map Warn ws) = 0"
  by (induction ws) (simp_all add: pushes_def)

lemma checks_Warn: "checks (map Warn ws) = 0"
  by (induction ws) (simp_all add: checks_def)

lemma attempts_Warn: "attempts (map Warn ws) = 0"
  by (induction ws) (simp_all add: attempts_def)

text \<open>One pass through the try block.\<close>

lemma try_attempt_Inr:
  assumes "try_attempt parse cfg net attempt st = (Inr v, st1)"
  shows "requestTimes st1 = requestTimes st @ [clock st1]"
    and "clock st \<le> clock st1"
    and "fetches st1 = Suc (fetches st)"
    and "trace st1 = trace st @ [Fetch attempt, Push (clock st1)]"
  using assms
  by (auto simp: try_attempt_def do_fetch_def record_success_def Let_def
           split: fetched.splits if_splits prod.splits option.splits)

lemma try_attempt_Inl:
  assumes "try_attempt parse cfg net attempt st = (Inl e, st1)" "decodes (net (fetches st))"
  shows "requestTimes st1 = requestTimes st"
    and "clock st \<le> clock st1"
    and "fetches st1 = Suc (fetches st)"
    and "\<exists>ws. trace st1 = trace st @ Fetch attempt # map Warn ws"
  using assms
  by (auto simp: try_attempt_def do_fetch_def record_success_def Let_def decodes_def
           split: fetched.splits if_splits prod.splits option.splits)

lemma on_catch_facts:
  shows "requestTimes (on_catch cfg rnd attempt st) = requestTimes st"
    and "clock st \<le> clock (on_catch cfg rnd attempt st)"
    and "fetches (on_catch cfg rnd attempt st) = fetches st"
    and "\<exists>evs. trace (on_catch cfg rnd attempt st) = trace st @ evs
            \<and> pushes evs = 0 \<and> checks evs = 0 \<and> attempts evs = 0"
  by (auto simp: on_catch_def sleep_def emit_def Let_def pushes_def checks_def attempts_def)

lemma loop_effect_trans:
  assumes "requestTimes st1 = requestTimes st" "clock st \<le> clock st1" "fetches st \<le> fetches st1"
    "trace st1 = trace st @ evs" "pushes evs = 0" "checks evs = 0"
    "loop_effect st1 out"
  shows "loop_effect st out"
proof -
  from assms(7) obtain evs' where
    e: "trace (snd out) = trace st1 @ evs'" "checks evs' = 0"
       "case fst out of
          Inr v \<Rightarrow> requestTimes (snd out) = requestTimes st1 @ [clock (snd out)] \<and> pushes evs' = 1
        | Inl e \<Rightarrow> requestTimes (snd out) = requestTimes st1 \<and> pushes evs' = 0"
    and c: "clock st1 \<le> clock (snd out)" "fetches st1 \<le> fetches (snd out)"
    by (auto simp: loop_effect_def)
  have t: "trace (snd out) = trace st @ (evs @ evs')" using e(1) assms(4) by simp
  have k: "checks (evs @ evs') = 0" using e(2) assms(6) by (simp add: checks_append)
  have p: "pushes (evs @ evs') = pushes evs'" using assms(5) by (simp add: pushes_append)
  show ?thesis
    unfolding loop_effect_def
    using c assms(1,2,3) t k p e(3)
    by (intro conjI exI [of _ "evs @ evs'"]) (auto split: sum.splits)
qed

lemma request_loop_effect:
  assumes "\<forall>i. decodes (net i)"
  shows "loop_effect st (request_loop parse cfg net attempt lastError st)"
  using assms
proof (induction parse cfg net attempt lastError st rule: request_loop.induct)
  case (1 parse cfg net attempt lastError st)
  show ?case
  proof (cases "attempt \<le> maxRetries cfg")
    case False
    then show ?thesis
      by (simp add: request_loop.simps [of parse cfg net attempt] loop_effect_def checks_def pushes_def
               split: option.splits)
  next
    case True
    obtain r st1 where t: "try_attempt parse cfg net attempt st = (r, st1)"
      by (cases "try_attempt parse cfg net attempt st")
    show ?thesis
    proof (cases r)
      case (Inr v)
      with t True have "request_loop parse cfg net attempt lastError st = (Inr v, st1)"
        by (simp add: request_loop.simps [of parse cfg net attempt])
      moreover have "loop_effect st (Inr v, st1)"
        using try_attempt_Inr [OF t [unfolded Inr]]
        by (simp add: loop_effect_def checks_def pushes_def)
      ultimately show ?thesis by simp
    next
      case (Inl e)
      let ?st2 = "on_catch cfg (random (net (fetches st))) attempt st1"
      from t True Inl have eq: "request_loop parse cfg net attempt lastError st
          = request_loop parse cfg net (Suc attempt) (Some e) ?st2"
        by (simp add: request_loop.simps [of parse cfg net attempt])
      have ih: "loop_effect ?st2 (request_loop parse cfg net (Suc attempt) (Some e) ?st2)"
        using "1.IH" [OF True t [symmetric] Inl "1.prems"] .
      have d: "decodes (net (fetches st))" using "1.prems" by simp
      from try_attempt_Inl(4) [OF t [unfolded Inl] d] obtain ws where
        w: "trace st1 = trace st @ Fetch attempt # map Warn ws" by blast
      from on_catch_facts(4) [of cfg "random (net (fetches st))" attempt st1] obtain evs where
        v: "trace ?st2 = trace st1 @ evs" "pushes evs = 0" "checks evs = 0" by blast
      have tr: "trace ?st2 = trace st @ ((Fetch attempt # map Warn ws) @ evs)"
        using w v(1) by simp
      have p0: "pushes ((Fetch attempt # map Warn ws) @ evs) = 0"
        using v(2) pushes_Warn [of ws] by (simp add: pushes_def)
      have c0: "checks ((Fetch attempt # map Warn ws) @ evs) = 0"
        using v(3) checks_Warn [of ws] by (simp add: checks_def)
      have rt: "requestTimes ?st2 = requestTimes st"
        using try_attempt_Inl(1) [OF t [unfolded Inl] d] on_catch_facts(1) by simp
      have ck: "clock st \<le> clock ?st2"
        using try_attempt_Inl(2) [OF t [unfolded Inl] d]
              on_catch_facts(2) [of st1 cfg "random (net (fetches st))" attempt]
        by linarith
      have ft: "fetches st \<le> fetches ?st2"
        using try_attempt_Inl(3) [OF t [unfolded Inl] d] on_catch_facts(3) by simp
      show ?thesis
        unfolding eq by (rule loop_effect_trans [OF rt ck ft tr p0 c0 ih])
    qed
  qed
qed

text \<open>The retry loop runs no admission check, whatever the network answers.\<close>

lemma try_attempt_no_check:
  "\<exists>evs. trace (snd (try_attempt parse cfg net attempt st)) = trace st @ evs \<and> checks evs = 0"
proof (cases "outcome (net (fetches st))")
  case (Rejects m)
  then show ?thesis
    by (simp add: try_attempt_def do_fetch_def Let_def checks_def)
next
  case (Resolves r)
  obtain ws e where h: "handleErrorResponse parse cfg r attempt = (ws, e)"
    by (cases "handleErrorResponse parse cfg r attempt")
  have c: "checks (Fetch attempt # map Warn ws) = 0"
    using checks_Warn [of ws] by (simp add: checks_def)
  show ?thesis
  proof (cases "ok r")
    case False
    with Resolves h have "trace (snd (try_attempt parse cfg net attempt st))
                            = trace st @ (Fetch attempt # map Warn ws)"
      by (simp add: try_attempt_def do_fetch_def Let_def)
    with c show ?thesis by blast
  next
    case True
    with Resolves have "trace (snd (try_attempt parse cfg net attempt st))
                          = trace st @ [Fetch attempt, Push (clock st + int (latency (net (fetches st))))]"
      by (simp add: try_attempt_def do_fetch_def record_success_def Let_def split: option.splits)
    moreover have "checks [Fetch attempt, Push (clock st + int (latency (net (fetches st))))] = 0"
      by (simp add: checks_def)
    ultimately show ?thesis by blast
  qed
qed

lemma request_loop_no_check:
  "\<exists>evs. trace (snd (request_loop parse cfg net attempt lastError st)) = trace st @ evs
         \<and> checks evs = 0"
proof (induction parse cfg net attempt lastError st rule: request_loop.induct)
  case (1 parse cfg net attempt lastError st)
  show ?case
  proof (cases "attempt \<le> maxRetries cfg")
    case False
    then have "trace (snd (request_loop parse cfg net attempt lastError st)) = trace st @ []"
      by (simp add: request_loop.simps [of parse cfg net attempt] split: option.splits)
    moreover have "checks [] = 0" by (simp add: checks_def)
    ultimately show ?thesis by blast
  next
    case True
    obtain r st1 where t: "try_attempt parse cfg net attempt st = (r, st1)"
      by (cases "try_attempt parse cfg net attempt st")
    from try_attempt_no_check [of parse cfg net attempt st] t obtain evs1 where
      e1: "trace st1 = trace st @ evs1" "checks evs1 = 0" by auto
    show ?thesis
    proof (cases r)
      case (Inr v)
      with t True have "request_loop parse cfg net attempt lastError st = (Inr v, st1)"
        by (simp add: request_loop.simps [of parse cfg net attempt])
      with e1 show ?thesis by auto
    next
      case (Inl e)
      let ?st2 = "on_catch cfg (random (net (fetches st))) attempt st1"
      from t True Inl have eq: "request_loop parse cfg net attempt lastError st
          = request_loop parse cfg net (Suc attempt) (Some e) ?st2"
        by (simp add: request_loop.simps [of parse cfg net attempt])
      from "1.IH" [OF True t [symmetric] Inl] obtain evs3 where
        e3: "trace (snd (request_loop parse cfg net (Suc attempt) (Some e) ?st2)) = trace ?st2 @ evs3"
            "checks evs3 = 0" by blast
      from on_catch_facts(4) [of cfg "random (net (fetches st))" attempt st1] obtain evs2 where
        e2: "trace ?st2 = trace st1 @ evs2" "checks evs2 = 0" by blast
      have "trace (snd (request_loop parse cfg net attempt lastError st))
              = trace st @ (evs1 @ evs2 @ evs3)"
        unfolding eq using e1(1) e2(1) e3(1) by simp
      moreover have "checks (evs1 @ evs2 @ evs3) = 0"
        using e1(2) e2(2) e3(2) by (simp add: checks_append)
      ultimately show ?thesis by blast
    qed
  qed
qed

text \<open>The admission check.\<close>

lemma checkRateLimit_trace:
  "\<exists>evs. trace (checkRateLimit st) = trace st @ CheckRateLimit # evs
         \<and> checks evs = 0 \<and> pushes evs = 0 \<and> attempts evs = 0"
  by (auto simp: checkRateLimit_def Let_def sleep_def emit_def checks_def pushes_def attempts_def
           split: list.splits)

lemma checkRateLimit_requestTimes:
  "requestTimes (checkRateLimit st)
     = filter (\<lambda>time. clock st - time < rateLimitWindow) (requestTimes st)"
  by (auto simp: checkRateLimit_def Let_def sleep_def emit_def split: list.splits)

lemma checkRateLimit_fetches: "fetches (checkRateLimit st) = fetches st"
  by (auto simp: checkRateLimit_def Let_def sleep_def emit_def split: list.splits)

lemma checkRateLimit_clock: "clock st \<le> clock (checkRateLimit st)"
  by (auto simp: checkRateLimit_def Let_def sleep_def emit_def split: list.splits)

lemma filter_length_mono:
  assumes "\<And>x. x \<in> set xs \<Longrightarrow> P x \<Longrightarrow> Q x"
  shows "length (filter P xs) \<le> length (filter Q xs)"
  using assms by (induction xs) auto

lemma window_shrinks:
  fixes T T' :: int
  assumes "T \<le> T'"
  shows "length (filter (\<lambda>time. T' - time < w) xs) \<le> length (filter (\<lambda>time. T - time < w) xs)"
  using assms by (intro filter_length_mono) simp

lemma checkRateLimit_headroom:
  assumes "in_window st \<le> pro_requestsPerSecond" "clock (checkRateLimit st) \<le> T"
  shows "length (filter (\<lambda>time. T - time < rateLimitWindow) (requestTimes (checkRateLimit st)))
           < pro_requestsPerSecond"
proof -
  define times where "times = filter (\<lambda>time. clock st - time < rateLimitWindow) (requestTimes st)"
  have rt: "requestTimes (checkRateLimit st) = times"
    unfolding times_def by (rule checkRateLimit_requestTimes)
  have len: "length times \<le> pro_requestsPerSecond"
    using assms(1) by (simp add: in_window_def times_def)
  show ?thesis
  proof (cases "pro_requestsPerSecond \<le> length times")
    case False
    have "length (filter (\<lambda>time. T - time < rateLimitWindow) times) \<le> length times"
      by (rule length_filter_le)
    with False show ?thesis unfolding rt by linarith
  next
    case True
    then have "times \<noteq> []" by (auto simp: pro_requestsPerSecond_def)
    then obtain oldest rest where ts: "times = oldest # rest" by (cases times) auto
    have "oldest \<in> set times" using ts by simp
    then have w: "clock st - oldest < rateLimitWindow" by (simp add: times_def)
    have ck: "clock (checkRateLimit st) = clock st + (rateLimitWindow - (clock st - oldest) + 100)"
      using True ts w by (simp add: checkRateLimit_def Let_def sleep_def emit_def times_def [symmetric])
    have "\<not> T - oldest < rateLimitWindow" using ck assms(2) by simp
    then have eq: "filter (\<lambda>time. T - time < rateLimitWindow) times
                 = filter (\<lambda>time. T - time < rateLimitWindow) rest"
      using ts by simp
    have le: "length (filter (\<lambda>time. T - time < rateLimitWindow) rest) \<le> length rest"
      by (rule length_filter_le)
    have "length rest < pro_requestsPerSecond" using len ts by simp
    with le show ?thesis unfolding rt eq by linarith
  qed
qed

lemma request_effect:
  assumes "\<forall>i. decodes (net i)"
  shows "loop_effect (checkRateLimit st) (request parse cfg net st)"
  unfolding request_def by (rule request_loop_effect [OF assms])

lemma request_keeps_window:
  assumes d: "\<forall>i. decodes (net i)" and w: "in_window st \<le> pro_requestsPerSecond"
  shows "in_window (snd (request parse cfg net st)) \<le> pro_requestsPerSecond"
proof -
  let ?st1 = "checkRateLimit st"
  let ?out = "request parse cfg net st"
  let ?T = "clock (snd ?out)"
  from request_effect [OF d, of st parse cfg] have
    ck: "clock ?st1 \<le> ?T" and
    rt: "case fst ?out of
           Inr v \<Rightarrow> requestTimes (snd ?out) = requestTimes ?st1 @ [?T]
         | Inl e \<Rightarrow> requestTimes (snd ?out) = requestTimes ?st1"
    by (auto simp: loop_effect_def split: sum.splits)
  have h: "length (filter (\<lambda>time. ?T - time < rateLimitWindow) (requestTimes ?st1))
             < pro_requestsPerSecond"
    by (rule checkRateLimit_headroom [OF w ck])
  show ?thesis
  proof (cases "fst ?out")
    case (Inl e)
    with rt h show ?thesis by (simp add: in_window_def)
  next
    case (Inr v)
    with rt h show ?thesis by (simp add: in_window_def rateLimitWindow_def)
  qed
qed

lemma idle_keeps_window:
  assumes "in_window st \<le> pro_requestsPerSecond"
  shows "in_window (st\<lparr> clock := clock st + int d \<rparr>) \<le> pro_requestsPerSecond"
proof -
  have "in_window (st\<lparr> clock := clock st + int d \<rparr>) \<le> in_window st"
    unfolding in_window_def by (simp add: window_shrinks)
  with assms show ?thesis by simp
qed

lemma sequential_keeps_window:
  assumes "\<forall>i. decodes (net i)"
  shows "sequential ss \<Longrightarrow> in_window st \<le> pro_requestsPerSecond
           \<Longrightarrow> in_window (run parse cfg net ss st) \<le> pro_requestsPerSecond"
proof (induction ss arbitrary: st rule: sequential.induct)
  case 1
  then show ?case by simp
next
  case (2 d ss)
  then show ?case using idle_keeps_window by simp
next
  case (3 ss)
  have "in_window (snd (request parse cfg net st)) \<le> pro_requestsPerSecond"
    by (rule request_keeps_window [OF assms "3.prems"(2)])
  then show ?case using "3.IH" "3.prems"(1) by (simp add: request_def)
qed simp_all


text \<open>
  C2, as stated, fails once two calls are in flight together: 21 calls that all pass
  \<open>checkRateLimit\<close> on the empty window before any of them completes, each answered 200,
  leave 21 timestamps inside one second, above the ceiling of 20.
\<close>

theorem calls_in_flight_overfill_window:
  "in_window (run never_parses DEFAULT_RETRY_CONFIG (stream_of [] (replies 200 (Some (0::nat))))
       (replicate 21 Admit @ replicate 21 Perform) fresh) = 21
   \<and> \<not> in_window (run never_parses DEFAULT_RETRY_CONFIG (stream_of [] (replies 200 (Some (0::nat))))
       (replicate 21 Admit @ replicate 21 Perform) fresh) \<le> pro_requestsPerSecond"
  by code_simp


text \<open>
  C2, amended. For calls made one after another on a fresh client (each call's admission
  check followed by its own retry loop, idle time in between), with every 2xx body
  decoding: after each call the number of \<open>requestTimes\<close> entries newer than the trailing
  second is at most \<open>RATE_LIMITS.pro.requestsPerSecond = 20\<close>.
\<close>

theorem sequential_calls_keep_window: 
  assumes "sequential ss" "\<forall>i. decodes (net i)"
  shows "in_window (run parse cfg net ss fresh) \<le> pro_requestsPerSecond"
  by (rule sequential_keeps_window [OF assms(2) assms(1)]) (simp add: in_window_def fresh_def)


theorem sequential_calls_keep_window_witness:
  "sequential [Admit, Perform, Idle 10, Admit, Perform]
   \<and> (\<forall>i. decodes (stream_of [] (replies 200 (Some (0::nat))) i))
   \<and> in_window (run never_parses DEFAULT_RETRY_CONFIG (stream_of [] (replies 200 (Some (0::nat))))
        [Admit, Perform, Idle 10, Admit, Perform] fresh) \<le> pro_requestsPerSecond"
proof -
  have s: "sequential [Admit, Perform, Idle 10, Admit, Perform]" by simp
  have d: "\<forall>i. decodes (stream_of [] (replies 200 (Some (0::nat))) i)"
    by (simp add: decodes_def stream_of_def replies_def ok_def)
  from sequential_calls_keep_window [OF s d] s d show ?thesis by blast
qed


text \<open>
  C7, as stated, fails: in a call answered 429 and then 200 the second attempt is sent
  with no admission check before it; the call runs \<open>checkRateLimit\<close> once and fetches twice.
\<close>

theorem request_retries_without_admission_check:
  "\<not> checked_before_each False
       (trace (snd (request never_parses DEFAULT_RETRY_CONFIG
                      (stream_of [replies 429 None] (replies 200 (Some (0::nat)))) fresh)))
   \<and> checks (trace (snd (request never_parses DEFAULT_RETRY_CONFIG
                      (stream_of [replies 429 None] (replies 200 (Some (0::nat)))) fresh))) = 1
   \<and> attempts (trace (snd (request never_parses DEFAULT_RETRY_CONFIG
                      (stream_of [replies 429 None] (replies 200 (Some (0::nat)))) fresh))) = 2"
  by code_simp


text \<open>
  C7, amended. Every call runs \<open>checkRateLimit\<close> exactly once, as its first action and
  before the first attempt; and, when every 2xx body decodes, the window entry is appended
  exactly once on success and not at all on failure.
\<close>

theorem request_one_check_one_push:
  "checks (trace (snd (request parse cfg net st))) = checks (trace st) + 1
   \<and> take (Suc (length (trace st))) (trace (snd (request parse cfg net st)))
       = trace st @ [CheckRateLimit]
   \<and> ((\<forall>i. decodes (net i)) \<longrightarrow>
        (case fst (request parse cfg net st) of
            Inr v \<Rightarrow> pushes (trace (snd (request parse cfg net st))) = pushes (trace st) + 1
                   \<and> requestTimes (snd (request parse cfg net st))
                       = requestTimes (checkRateLimit st) @ [clock (snd (request parse cfg net st))]
          | Inl e \<Rightarrow> pushes (trace (snd (request parse cfg net st))) = pushes (trace st)
                   \<and> requestTimes (snd (request parse cfg net st)) = requestTimes (checkRateLimit st)))"
proof -
  let ?out = "request parse cfg net st"
  from checkRateLimit_trace [of st] obtain evs where
    c: "trace (checkRateLimit st) = trace st @ CheckRateLimit # evs"
       "checks evs = 0" "pushes evs = 0" by blast
  from request_loop_no_check [of parse cfg net 0 None "checkRateLimit st"] obtain evs0 where
    n: "trace (snd ?out) = trace (checkRateLimit st) @ evs0" "checks evs0 = 0"
    by (auto simp: request_def)
  have tr0: "trace (snd ?out) = trace st @ CheckRateLimit # (evs @ evs0)"
    using c(1) n(1) by simp
  have a: "checks (trace (snd ?out)) = checks (trace st) + 1"
    unfolding tr0 using c(2) n(2) by (simp add: checks_def)
  have b: "take (Suc (length (trace st))) (trace (snd ?out)) = trace st @ [CheckRateLimit]"
    unfolding tr0 by simp
  have d: "case fst ?out of
            Inr v \<Rightarrow> pushes (trace (snd ?out)) = pushes (trace st) + 1
                   \<and> requestTimes (snd ?out) = requestTimes (checkRateLimit st) @ [clock (snd ?out)]
          | Inl e \<Rightarrow> pushes (trace (snd ?out)) = pushes (trace st)
                   \<and> requestTimes (snd ?out) = requestTimes (checkRateLimit st)"
    if dec: "\<forall>i. decodes (net i)"
  proof -
    from request_effect [OF dec, of st parse cfg] obtain evs' where
      l: "trace (snd ?out) = trace (checkRateLimit st) @ evs'"
         "case fst ?out of
            Inr v \<Rightarrow> requestTimes (snd ?out) = requestTimes (checkRateLimit st) @ [clock (snd ?out)]
                     \<and> pushes evs' = 1
          | Inl e \<Rightarrow> requestTimes (snd ?out) = requestTimes (checkRateLimit st) \<and> pushes evs' = 0"
      by (auto simp: loop_effect_def)
    have tr: "trace (snd ?out) = trace st @ CheckRateLimit # (evs @ evs')"
      using c(1) l(1) by simp
    have p: "pushes (trace (snd ?out)) = pushes (trace st) + pushes evs'"
      unfolding tr using c(3) by (simp add: pushes_def)
    show ?thesis using l(2) p by (auto split: sum.splits)
  qed
  from a b d show ?thesis by blast
qed

theorem request_one_check_one_push_witness:
  "(\<forall>i. decodes (stream_of [replies 429 None] (replies 200 (Some (0::nat))) i))
   \<and> checks (trace (snd (request never_parses DEFAULT_RETRY_CONFIG
                 (stream_of [replies 429 None] (replies 200 (Some (0::nat)))) fresh))) = 1
   \<and> pushes (trace (snd (request never_parses DEFAULT_RETRY_CONFIG
                 (stream_of [replies 429 None] (replies 200 (Some (0::nat)))) fresh))) = 1"
proof -
  let ?net = "stream_of [replies 429 None] (replies 200 (Some (0::nat)))"
  have d: "\<forall>i. decodes (?net i)"
    by (simp add: decodes_def stream_of_def replies_def ok_def)
  have r: "fst (request never_parses DEFAULT_RETRY_CONFIG ?net fresh) = Inr 0"
    by code_simp
  have t: "trace fresh = []" by (simp add: fresh_def)
  from request_one_check_one_push [of never_parses DEFAULT_RETRY_CONFIG ?net fresh] d show ?thesis
    by (simp add: r t checks_def pushes_def)
qed

text \<open>
  C1 at the default configuration (\<open>maxRetries = 3\<close>). With 401 at every attempt the call
  ends in \<open>MeshyAuthError\<close> only after four fetches and three backoff sleeps; with 401
  and then 200 it succeeds. The \<open>catch\<close> block of \<open>request\<close> retries whatever was thrown.
\<close>

theorem request_retries_unauthorized:
  "fst (request never_parses DEFAULT_RETRY_CONFIG (stream_of [] (replies 401 (None :: unit option))) fresh)
     = Inl (Meshy MeshyAuthError ''Unauthorized: HTTP 401'' 401 None)
   \<and> attempts (trace (snd (request never_parses DEFAULT_RETRY_CONFIG
                   (stream_of [] (replies 401 (None :: unit option))) fresh))) = 4
   \<and> sleeps (trace (snd (request never_parses DEFAULT_RETRY_CONFIG
                   (stream_of [] (replies 401 (None :: unit option))) fresh))) = [1150, 2300, 4600]
   \<and> fst (request never_parses DEFAULT_RETRY_CONFIG
            (stream_of [replies 401 None] (replies 200 (Some (0::nat)))) fresh) = Inr 0"
  by code_simp


text \<open>One failed attempt that is retried, and one successful attempt.\<close>

lemma request_loop_retry:
  assumes "attempt \<le> maxRetries cfg" "outcome (net (fetches st)) = Resolves r" "\<not> ok r"
  shows "\<exists>e st2. request_loop parse cfg net attempt lastError st
                  = request_loop parse cfg net (Suc attempt) (Some e) st2
               \<and> requestTimes st2 = requestTimes st \<and> fetches st2 = Suc (fetches st)
               \<and> pushes (trace st2) = pushes (trace st) \<and> attempts (trace st2) = Suc (attempts (trace st))"
proof -
  obtain ws e where h: "handleErrorResponse parse cfg r attempt = (ws, e)"
    by (cases "handleErrorResponse parse cfg r attempt")
  let ?st1 = "snd (do_fetch net attempt st)"
  let ?st1' = "?st1\<lparr> trace := trace ?st1 @ map Warn ws \<rparr>"
  let ?st2 = "on_catch cfg (random (net (fetches st))) attempt ?st1'"
  have t: "try_attempt parse cfg net attempt st = (Inl e, ?st1')"
    using assms(2,3) h by (simp add: try_attempt_def do_fetch_def Let_def)
  have eq: "request_loop parse cfg net attempt lastError st
              = request_loop parse cfg net (Suc attempt) (Some e) ?st2"
    using assms(1) t by (simp add: request_loop.simps [of parse cfg net attempt])
  from on_catch_facts(4) [of cfg "random (net (fetches st))" attempt ?st1'] obtain evs where
    v: "trace ?st2 = trace ?st1' @ evs" "pushes evs = 0" "attempts evs = 0" by blast
  have tr: "trace ?st2 = trace st @ [Fetch attempt] @ map Warn ws @ evs"
    using v(1) by (simp add: do_fetch_def Let_def)
  have p: "pushes (trace ?st2) = pushes (trace st)"
    unfolding tr using v(2) pushes_Warn [of ws] by (simp add: pushes_append) (simp add: pushes_def)
  have a: "attempts (trace ?st2) = Suc (attempts (trace st))"
    unfolding tr using v(3) attempts_Warn [of ws] by (simp add: attempts_append) (simp add: attempts_def)
  have rt: "requestTimes ?st2 = requestTimes st"
    using on_catch_facts(1) [of cfg "random (net (fetches st))" attempt ?st1']
    by (simp add: do_fetch_def Let_def)
  have f: "fetches ?st2 = Suc (fetches st)"
    using on_catch_facts(3) [of cfg "random (net (fetches st))" attempt ?st1']
    by (simp add: do_fetch_def Let_def)
  from eq rt f p a show ?thesis by blast
qed

lemma request_loop_success:
  assumes "attempt \<le> maxRetries cfg" "outcome (net (fetches st)) = Resolves r" "ok r"
    "rs_json r = Some v"
  shows "\<exists>st'. request_loop parse cfg net attempt lastError st = (Inr v, st')
            \<and> requestTimes st' = requestTimes st @ [clock st'] \<and> fetches st' = Suc (fetches st)
            \<and> pushes (trace st') = Suc (pushes (trace st))
            \<and> attempts (trace st') = Suc (attempts (trace st))"
proof -
  let ?st' = "record_success (snd (do_fetch net attempt st))"
  have t: "try_attempt parse cfg net attempt st = (Inr v, ?st')"
    using assms(2,3,4) by (simp add: try_attempt_def do_fetch_def Let_def)
  have eq: "request_loop parse cfg net attempt lastError st = (Inr v, ?st')"
    using assms(1) t by (simp add: request_loop.simps [of parse cfg net attempt])
  have "requestTimes ?st' = requestTimes st @ [clock ?st']" "fetches ?st' = Suc (fetches st)"
    "pushes (trace ?st') = Suc (pushes (trace st))" "attempts (trace ?st') = Suc (attempts (trace st))"
    by (simp_all add: record_success_def do_fetch_def Let_def pushes_def attempts_def)
  with eq show ?thesis by blast
qed

text \<open>
  C6, as stated, fails for a 200 whose body does not decode (the empty body of a DELETE
  answered through \<open>request\<close>): the timestamp is pushed, \<open>response.json()\<close> then throws inside
  the \<open>try\<close>, and the call either fails (\<open>maxRetries = 2\<close>: attempt 2 was the last) or goes
  on to a fourth attempt and pushes a second timestamp when that one succeeds
  (\<open>maxRetries = 3\<close>).
\<close>

theorem request_after_two_429_undecodable:
  "fst (request never_parses (DEFAULT_RETRY_CONFIG\<lparr> maxRetries := 2 \<rparr>)
          (stream_of [replies 429 None, replies 429 None] (replies 200 (None :: nat option))) fresh)
     = Inl JsonError
   \<and> pushes (trace (snd (request never_parses (DEFAULT_RETRY_CONFIG\<lparr> maxRetries := 2 \<rparr>)
          (stream_of [replies 429 None, replies 429 None] (replies 200 (None :: nat option))) fresh)))
     = 1
   \<and> fst (request never_parses DEFAULT_RETRY_CONFIG
          (stream_of [replies 429 None, replies 429 None, replies 200 None] (replies 200 (Some (7::nat))))
          fresh)
     = Inr 7
   \<and> pushes (trace (snd (request never_parses DEFAULT_RETRY_CONFIG
          (stream_of [replies 429 None, replies 429 None, replies 200 None] (replies 200 (Some (7::nat))))
          fresh)))
     = 2"
  by code_simp

text \<open>
  C6, amended. With \<open>maxRetries \<ge> 2\<close>, when the call's first two responses have status 429
  and the third has status 200 and a body that decodes to \<open>v\<close>, \<open>request\<close> returns \<open>v\<close> after
  three fetches, and \<open>requestTimes\<close> is the pruned window followed by exactly one new
  timestamp: one push for the call, none for the two failed attempts.
\<close>

theorem request_succeeds_after_two_429:
  assumes m: "2 \<le> maxRetries cfg"
    and r0: "outcome (net (fetches st)) = Resolves a0" "rs_status a0 = 429"
    and r1: "outcome (net (fetches st + 1)) = Resolves a1" "rs_status a1 = 429"
    and r2: "outcome (net (fetches st + 2)) = Resolves a2" "rs_status a2 = 200" "rs_json a2 = Some v"
  shows "fst (request parse cfg net st) = Inr v
       \<and> requestTimes (snd (request parse cfg net st))
           = filter (\<lambda>time. clock st - time < rateLimitWindow) (requestTimes st)
             @ [clock (snd (request parse cfg net st))]
       \<and> pushes (trace (snd (request parse cfg net st))) = pushes (trace st) + 1
       \<and> attempts (trace (snd (request parse cfg net st))) = attempts (trace st) + 3"
proof -
  let ?c = "checkRateLimit st"
  have f0: "fetches ?c = fetches st" by (rule checkRateLimit_fetches)
  from checkRateLimit_trace [of st] obtain evs where
    c: "trace ?c = trace st @ CheckRateLimit # evs" "pushes evs = 0" "attempts evs = 0" by blast
  have pc: "pushes (trace ?c) = pushes (trace st)"
    unfolding c(1) using c(2) by (simp add: pushes_def)
  have ac: "attempts (trace ?c) = attempts (trace st)"
    unfolding c(1) using c(3) by (simp add: attempts_def)
  have n0: "\<not> ok a0" using r0(2) by (simp add: ok_def)
  have n1: "\<not> ok a1" using r1(2) by (simp add: ok_def)
  have k2: "ok a2" using r2(2) by (simp add: ok_def)
  have le0: "0 \<le> maxRetries cfg" by simp
  have le1: "Suc 0 \<le> maxRetries cfg" using m by simp
  have le2: "Suc (Suc 0) \<le> maxRetries cfg" using m by simp
  have o0: "outcome (net (fetches ?c)) = Resolves a0" using r0(1) f0 by simp
  from request_loop_retry [where attempt = 0 and cfg = cfg and net = net and st = ?c and r = a0
         and parse = parse and lastError = None, OF le0 o0 n0] obtain e0 s1 where
    s1: "request_loop parse cfg net 0 None ?c = request_loop parse cfg net (Suc 0) (Some e0) s1"
        "requestTimes s1 = requestTimes ?c" "fetches s1 = Suc (fetches ?c)"
        "pushes (trace s1) = pushes (trace ?c)" "attempts (trace s1) = Suc (attempts (trace ?c))"
    by auto
  have o1: "outcome (net (fetches s1)) = Resolves a1" using r1(1) s1(3) f0 by simp
  from request_loop_retry [where attempt = "Suc 0" and cfg = cfg and net = net and st = s1 and r = a1
         and parse = parse and lastError = "Some e0", OF le1 o1 n1] obtain e1 s2 where
    s2: "request_loop parse cfg net (Suc 0) (Some e0) s1
           = request_loop parse cfg net (Suc (Suc 0)) (Some e1) s2"
        "requestTimes s2 = requestTimes s1" "fetches s2 = Suc (fetches s1)"
        "pushes (trace s2) = pushes (trace s1)" "attempts (trace s2) = Suc (attempts (trace s1))"
    by auto
  have o2: "outcome (net (fetches s2)) = Resolves a2" using r2(1) s2(3) s1(3) f0 by simp
  from request_loop_success [where attempt = "Suc (Suc 0)" and cfg = cfg and net = net and st = s2
         and r = a2 and v = v and parse = parse and lastError = "Some e1", OF le2 o2 k2 r2(3)] obtain s3 where
    s3: "request_loop parse cfg net (Suc (Suc 0)) (Some e1) s2 = (Inr v, s3)"
        "requestTimes s3 = requestTimes s2 @ [clock s3]"
        "pushes (trace s3) = Suc (pushes (trace s2))" "attempts (trace s3) = Suc (attempts (trace s2))"
    by auto
  have out: "request parse cfg net st = (Inr v, s3)"
    unfolding request_def using s1(1) s2(1) s3(1) by simp
  show ?thesis
    unfolding out
    using s3(2,3,4) s2(2,4,5) s1(2,4,5) pc ac checkRateLimit_requestTimes [of st]
    by simp
qed


theorem request_succeeds_after_two_429_witness:
  "(2::nat) \<le> maxRetries DEFAULT_RETRY_CONFIG
   \<and> rs_status \<lparr> rs_status = 429, rs_text = [], rs_json = (None :: nat option) \<rparr> = 429
   \<and> rs_status \<lparr> rs_status = 200, rs_text = [], rs_json = Some (7::nat) \<rparr> = 200
   \<and> fst (request never_parses DEFAULT_RETRY_CONFIG
            (stream_of [replies 429 None, replies 429 None] (replies 200 (Some (7::nat)))) fresh) = Inr 7
   \<and> pushes (trace (snd (request never_parses DEFAULT_RETRY_CONFIG
            (stream_of [replies 429 None, replies 429 None] (replies 200 (Some (7::nat)))) fresh))) = 1"
proof -
  let ?net = "stream_of [replies 429 None, replies 429 None] (replies 200 (Some (7::nat)))"
  let ?a = "\<lparr> rs_status = 429, rs_text = [], rs_json = (None :: nat option) \<rparr>"
  let ?b = "\<lparr> rs_status = 200, rs_text = [], rs_json = Some (7::nat) \<rparr>"
  have m: "2 \<le> maxRetries DEFAULT_RETRY_CONFIG" by (simp add: DEFAULT_RETRY_CONFIG_def)
  have r0: "outcome (?net (fetches fresh)) = Resolves ?a" "rs_status ?a = 429"
    by (simp_all add: stream_of_def replies_def fresh_def)
  have r1: "outcome (?net (fetches fresh + 1)) = Resolves ?a"
    by (simp add: stream_of_def replies_def fresh_def)
  have r2: "outcome (?net (fetches fresh + 2)) = Resolves ?b" "rs_status ?b = 200" "rs_json ?b = Some 7"
    by (simp_all add: stream_of_def replies_def fresh_def)
  from request_succeeds_after_two_429 [OF m r0 r1 r0(2) r2, of never_parses] m r0(2) r2(2) show ?thesis
    by (simp add: fresh_def pushes_def)
qed


section \<open>Polling\<close>

lemma getTask_loop_404:
  assumes "attempt < max_retries" "is404 (net (fetches st))"
  shows "getTask_loop max_retries net attempt st
           = getTask_loop max_retries net (Suc attempt)
               (sleep (2000 * (int attempt + 1)) (snd (do_fetch net attempt st)))"
proof -
  from assms(2) obtain r where r: "outcome (net (fetches st)) = Resolves r" "rs_status r = 404"
    by (auto simp: is404_def split: fetched.splits)
  have n: "\<not> ok r" using r(2) by (simp add: ok_def)
  have d: "fst (do_fetch net attempt st) = Resolves r"
    using r(1) by (simp add: do_fetch_def Let_def)
  show ?thesis
    using assms(1) n r(2)
    by (simp add: getTask_loop.simps [of max_retries net attempt] split_beta d)
qed

lemma getTask_loop_skip:
  assumes "attempt + k \<le> max_retries" "\<forall>j<k. is404 (net (fetches st + j))"
  shows "\<exists>st1. getTask_loop max_retries net attempt st = getTask_loop max_retries net (attempt + k) st1
            \<and> fetches st1 = fetches st + k
            \<and> sleeps (trace st1) = sleeps (trace st) @ map (\<lambda>j. 2000 * (int j + 1)) [attempt ..< attempt + k]
            \<and> attempts (trace st1) = attempts (trace st) + k
            \<and> requestTimes st1 = requestTimes st"
  using assms
proof (induction k arbitrary: attempt st)
  case 0
  show ?case by (intro exI [of _ st]) simp
next
  case (Suc k)
  let ?st' = "sleep (2000 * (int attempt + 1)) (snd (do_fetch net attempt st))"
  have a: "attempt < max_retries" using Suc.prems(1) by simp
  have h: "is404 (net (fetches st))" using Suc.prems(2) by auto
  have eq: "getTask_loop max_retries net attempt st = getTask_loop max_retries net (Suc attempt) ?st'"
    by (rule getTask_loop_404 [where attempt = attempt and max_retries = max_retries and net = net and st = st, OF a h])
  have f: "fetches ?st' = Suc (fetches st)" by (simp add: sleep_def do_fetch_def Let_def)
  have p: "\<forall>j<k. is404 (net (fetches ?st' + j))"
  proof (intro allI impI)
    fix j assume "j < k"
    then have "is404 (net (fetches st + Suc j))" using Suc.prems(2) by auto
    then show "is404 (net (fetches ?st' + j))" using f by simp
  qed
  have b: "Suc attempt + k \<le> max_retries" using Suc.prems(1) by simp
  from Suc.IH [OF b p] obtain st1 where
    i: "getTask_loop max_retries net (Suc attempt) ?st' = getTask_loop max_retries net (Suc attempt + k) st1"
       "fetches st1 = fetches ?st' + k"
       "sleeps (trace st1) = sleeps (trace ?st') @ map (\<lambda>j. 2000 * (int j + 1)) [Suc attempt ..< Suc attempt + k]"
       "attempts (trace st1) = attempts (trace ?st') + k"
       "requestTimes st1 = requestTimes ?st'"
    by blast
  have sl: "sleeps (xs @ [Fetch n, Sleep ms]) = sleeps xs @ [ms]" for xs n ms
    by (induction xs rule: sleeps.induct) simp_all
  have s': "sleeps (trace ?st') = sleeps (trace st) @ [2000 * (int attempt + 1)]"
    using sl [of "trace st" attempt] by (simp add: sleep_def do_fetch_def Let_def)
  have a': "attempts (trace ?st') = Suc (attempts (trace st))"
    by (simp add: sleep_def do_fetch_def Let_def attempts_def)
  have r': "requestTimes ?st' = requestTimes st" by (simp add: sleep_def do_fetch_def Let_def)
  have up: "[attempt ..< attempt + Suc k] = attempt # [Suc attempt ..< Suc attempt + k]"
    by (simp add: upt_conv_Cons)
  show ?case
    using eq i f s' a' r' up
    by (intro exI [of _ st1]) simp
qed

lemma getTask_loop_last:
  assumes "attempt \<le> max_retries" "\<not> is404 (net (fetches st)) \<or> attempt = max_retries"
  shows "getTask_loop max_retries net attempt st =
           (case outcome (net (fetches st)) of
              Rejects m \<Rightarrow> (Inl (FetchError m), snd (do_fetch net attempt st))
            | Resolves r \<Rightarrow>
                if ok r then
                  (case rs_json r of
                     None \<Rightarrow> (Inl JsonError, snd (do_fetch net attempt st))
                   | Some t \<Rightarrow> (Inr t, snd (do_fetch net attempt st)))
                else (Inl (Error (''Failed to get task: '' @ show_nat (rs_status r) @ '' - ''
                                  @ rs_text r)), snd (do_fetch net attempt st)))"
proof (cases "outcome (net (fetches st))")
  case (Rejects m)
  then have d: "fst (do_fetch net attempt st) = Rejects m" by (simp add: do_fetch_def Let_def)
  show ?thesis
    using assms(1) Rejects by (simp add: getTask_loop.simps [of max_retries net attempt] split_beta d)
next
  case (Resolves r)
  then have d: "fst (do_fetch net attempt st) = Resolves r" by (simp add: do_fetch_def Let_def)
  have n: "\<not> (rs_status r = 404 \<and> attempt < max_retries)"
    using assms(2) Resolves by (auto simp: is404_def)
  have "getTask_loop max_retries net attempt st =
          (if ok r then
             (case rs_json r of
                None \<Rightarrow> (Inl JsonError, snd (do_fetch net attempt st))
              | Some t \<Rightarrow> (Inr t, snd (do_fetch net attempt st)))
           else (Inl (Error (''Failed to get task: '' @ show_nat (rs_status r) @ '' - ''
                             @ rs_text r)), snd (do_fetch net attempt st)))"
    by (subst getTask_loop.simps) (simp only: assms(1) if_True split_beta d fetched.case n if_False)
  then show ?thesis using Resolves by simp
qed

lemma getTask_after_404s:
  assumes "k \<le> 3" "\<forall>j<k. is404 (net (fetches st + j))" "\<not> is404 (net (fetches st + k)) \<or> k = 3"
  shows "\<exists>st'. getTask taskId True net st = tick_outcome (net (fetches st + k)) st'
            \<and> fetches st' = fetches st + k + 1
            \<and> attempts (trace st') = attempts (trace st) + k + 1
            \<and> sleeps (trace st') = sleeps (trace st) @ map (\<lambda>j. 2000 * (int j + 1)) [0 ..< k]
            \<and> requestTimes st' = requestTimes st"
proof -
  have a: "0 + k \<le> (3::nat)" using assms(1) by simp
  from getTask_loop_skip [where attempt = 0 and k = k and max_retries = 3 and net = net and st = st,
                          OF a assms(2)]
  obtain st1 where
    s: "getTask_loop 3 net 0 st = getTask_loop 3 net (0 + k) st1"
       "fetches st1 = fetches st + k"
       "sleeps (trace st1) = sleeps (trace st) @ map (\<lambda>j. 2000 * (int j + 1)) [0 ..< 0 + k]"
       "attempts (trace st1) = attempts (trace st) + k"
       "requestTimes st1 = requestTimes st"
    by blast
  let ?st' = "snd (do_fetch net k st1)"
  have c: "\<not> is404 (net (fetches st1)) \<or> k = 3" using assms(3) s(2) by simp
  have l: "getTask_loop 3 net k st1 = tick_outcome (net (fetches st1)) ?st'"
    unfolding tick_outcome_def
    by (rule getTask_loop_last [where attempt = k and max_retries = 3 and net = net and st = st1,
                                OF assms(1) c])
  have sl: "sleeps (xs @ [Fetch n]) = sleeps xs" for xs n
    by (induction xs rule: sleeps.induct) simp_all
  have f: "fetches ?st' = fetches st + k + 1" using s(2) by (simp add: do_fetch_def Let_def)
  have t: "attempts (trace ?st') = attempts (trace st) + k + 1"
    using s(4) by (simp add: do_fetch_def Let_def attempts_def)
  have p: "sleeps (trace ?st') = sleeps (trace st) @ map (\<lambda>j. 2000 * (int j + 1)) [0 ..< k]"
    using s(3) sl [of "trace st1" k] by (simp add: do_fetch_def Let_def)
  have r: "requestTimes ?st' = requestTimes st" using s(5) by (simp add: do_fetch_def Let_def)
  have g: "getTask taskId True net st = tick_outcome (net (fetches st + k)) ?st'"
    using s(1) l s(2) by (simp add: getTask_def)
  from g f t p r show ?thesis by blast
qed

lemma pollTask_loop_step:
  assumes "i < max_retries"
  shows "pollTask_loop taskId max_retries intervalMs net i st =
           (case getTask taskId True net st of
              (Inl e, st1) \<Rightarrow> (Inl e, st1)
            | (Inr t, st1) \<Rightarrow>
                if task_status t = SUCCEEDED then (Inr t, st1)
                else if task_status t = FAILED \<or> task_status t = EXPIRED then
                  (Inl (Error (''Task '' @ taskId @ '' failed with status: ''
                               @ status_text (task_status t))), st1)
                else pollTask_loop taskId max_retries intervalMs net (Suc i) (sleep intervalMs st1))"
  using assms by (simp add: pollTask_loop.simps [of taskId max_retries intervalMs net i])

text \<open>
  C8, as stated, fails: the allowance is not one initial window. After three 404 retries
  were spent before the task was first seen (as PENDING), a 404 on the next tick is retried
  again, and the poll goes on to succeed.
\<close>

theorem pollTask_retries_404_on_later_tick:
  "fst (pollTask ''t1'' 60 10000
          (stream_of [replies 404 None, replies 404 None, replies 404 None,
                      replies 200 (Some (a_task PENDING)), replies 404 None]
                     (replies 200 (Some (a_task SUCCEEDED)))) fresh) = Inr (a_task SUCCEEDED)
   \<and> sleeps (trace (snd (pollTask ''t1'' 60 10000
          (stream_of [replies 404 None, replies 404 None, replies 404 None,
                      replies 200 (Some (a_task PENDING)), replies 404 None]
                     (replies 200 (Some (a_task SUCCEEDED)))) fresh)))
       = [2000, 4000, 6000, 10000, 2000]"
  by code_simp


text \<open>
  C8, amended. On every tick of \<open>pollTask\<close> (the first or a later one), the status fetch
  retries a 404 up to three times, sleeping 2000, 4000, 6000 ms, and the tick then behaves
  as a tick without those 404s at the same tick index: the retries consume none of
  \<open>maxRetries\<close>. The fetch that ends the tick is the first one not answered 404, or the fourth;
  when it fails (a fourth 404, another non-2xx status, a rejected fetch, an undecodable
  body) the error leaves \<open>pollTask\<close> at once.
\<close>

theorem pollTask_tick_404_allowance:
  assumes "k \<le> 3" "\<forall>j<k. is404 (net (fetches st + j))" "\<not> is404 (net (fetches st + k)) \<or> k = 3"
    "i < max_retries"
  shows "\<exists>st'. fetches st' = fetches st + k + 1
           \<and> sleeps (trace st') = sleeps (trace st) @ map (\<lambda>j. 2000 * (int j + 1)) [0 ..< k]
           \<and> pollTask_loop taskId max_retries intervalMs net i st =
               (case tick_outcome (net (fetches st + k)) st' of
                  (Inl e, st1) \<Rightarrow> (Inl e, st1)
                | (Inr t, st1) \<Rightarrow>
                    if task_status t = SUCCEEDED then (Inr t, st1)
                    else if task_status t = FAILED \<or> task_status t = EXPIRED then
                      (Inl (Error (''Task '' @ taskId @ '' failed with status: ''
                                   @ status_text (task_status t))), st1)
                    else pollTask_loop taskId max_retries intervalMs net (Suc i)
                           (sleep intervalMs st1))"
proof -
  from getTask_after_404s [OF assms(1,2,3), of taskId] obtain st' where
    g: "getTask taskId True net st = tick_outcome (net (fetches st + k)) st'"
       "fetches st' = fetches st + k + 1"
       "sleeps (trace st') = sleeps (trace st) @ map (\<lambda>j. 2000 * (int j + 1)) [0 ..< k]"
    by blast
  have "pollTask_loop taskId max_retries intervalMs net i st =
               (case tick_outcome (net (fetches st + k)) st' of
                  (Inl e, st1) \<Rightarrow> (Inl e, st1)
                | (Inr t, st1) \<Rightarrow>
                    if task_status t = SUCCEEDED then (Inr t, st1)
                    else if task_status t = FAILED \<or> task_status t = EXPIRED then
                      (Inl (Error (''Task '' @ taskId @ '' failed with status: ''
                                   @ status_text (task_status t))), st1)
                    else pollTask_loop taskId max_retries intervalMs net (Suc i)
                           (sleep intervalMs st1))"
    unfolding pollTask_loop_step [OF assms(4)] g(1) ..
  with g(2,3) show ?thesis by blast
qed


theorem pollTask_tick_404_allowance_witness:
  "(3::nat) \<le> 3
   \<and> is404 (stream_of [replies 404 None, replies 404 None, replies 404 None]
                       (replies 200 (Some (a_task SUCCEEDED))) (fetches fresh + 0))
   \<and> is404 (stream_of [replies 404 None, replies 404 None, replies 404 None]
                       (replies 200 (Some (a_task SUCCEEDED))) (fetches fresh + 1))
   \<and> is404 (stream_of [replies 404 None, replies 404 None, replies 404 None]
                       (replies 200 (Some (a_task SUCCEEDED))) (fetches fresh + 2))
   \<and> (0::nat) < 1
   \<and> fst (pollTask_loop ''t1'' 1 10000
            (stream_of [replies 404 None, replies 404 None, replies 404 None]
                       (replies 200 (Some (a_task SUCCEEDED)))) 0 fresh) = Inr (a_task SUCCEEDED)"
proof -
  let ?net = "stream_of [replies 404 None, replies 404 None, replies 404 None]
                       (replies 200 (Some (a_task SUCCEEDED)))"
  have k: "(3::nat) \<le> 3" by simp
  have a0: "is404 (?net (fetches fresh + 0))" "is404 (?net (fetches fresh + 1))"
       "is404 (?net (fetches fresh + 2))"
    by (simp_all add: is404_def stream_of_def replies_def fresh_def)
  have a: "\<forall>j<3. is404 (?net (fetches fresh + j))"
  proof (intro allI impI)
    fix j :: nat assume "j < 3"
    then have "j = 0 \<or> j = 1 \<or> j = 2" by arith
    then show "is404 (?net (fetches fresh + j))" using a0 by auto
  qed
  have b: "\<not> is404 (?net (fetches fresh + 3)) \<or> (3::nat) = 3" by simp
  have i: "(0::nat) < 1" by simp
  have t: "tick_outcome (?net (fetches fresh + 3)) st' = (Inr (a_task SUCCEEDED), st')" for st'
    by (simp add: tick_outcome_def stream_of_def replies_def fresh_def ok_def)
  have ts: "task_status (a_task SUCCEEDED) = SUCCEEDED" by (simp add: a_task_def)
  from pollTask_tick_404_allowance [OF k a b i, of "''t1''" 10000] k a0 i show ?thesis
    by (auto simp: t ts)
qed


text \<open>A poll whose first \<open>n\<close> ticks continue reaches tick \<open>n\<close>.\<close>

lemma pollTask_loop_continues:
  assumes "i < max_retries" "keeps_polling (fst (getTask taskId True net st))"
  shows "pollTask_loop taskId max_retries intervalMs net i st
           = pollTask_loop taskId max_retries intervalMs net (Suc i)
               (pollTask_tick taskId intervalMs net st)"
  using assms(2) unfolding pollTask_loop_step [OF assms(1)]
  by (cases "getTask taskId True net st")
     (auto simp: keeps_polling_def pollTask_tick_def split: sum.splits)

lemma pollTask_loop_run:
  assumes "i + n \<le> max_retries"
    "\<forall>j<n. keeps_polling (fst (pollTask_observes taskId intervalMs net st j))"
  shows "pollTask_loop taskId max_retries intervalMs net i st
           = pollTask_loop taskId max_retries intervalMs net (i + n)
               ((pollTask_tick taskId intervalMs net ^^ n) st)"
  using assms
proof (induction n arbitrary: i st)
  case 0
  show ?case by simp
next
  case (Suc n)
  let ?tick = "pollTask_tick taskId intervalMs net"
  have i: "i < max_retries" using Suc.prems(1) by simp
  have k: "keeps_polling (fst (getTask taskId True net st))"
    using Suc.prems(2) by (auto simp: pollTask_observes_def dest: spec [of _ 0])
  have s: "pollTask_loop taskId max_retries intervalMs net i st
             = pollTask_loop taskId max_retries intervalMs net (Suc i) (?tick st)"
    by (rule pollTask_loop_continues [OF i k])
  have p: "\<forall>j<n. keeps_polling (fst (pollTask_observes taskId intervalMs net (?tick st) j))"
  proof (intro allI impI)
    fix j assume "j < n"
    then have "keeps_polling (fst (pollTask_observes taskId intervalMs net st (Suc j)))"
      using Suc.prems(2) by simp
    then show "keeps_polling (fst (pollTask_observes taskId intervalMs net (?tick st) j))"
      by (simp add: pollTask_observes_def funpow_swap1)
  qed
  have b: "Suc i + n \<le> max_retries" using Suc.prems(1) by simp
  show ?case
    unfolding s using Suc.IH [OF b p] by (simp add: funpow_swap1)
qed

lemma pollTask_fails_on_failure_status:
  assumes "n < max_retries"
    "\<forall>j<n. keeps_polling (fst (pollTask_observes taskId intervalMs net st j))"
    "fst (pollTask_observes taskId intervalMs net st n) = Inr t"
    "task_status t = FAILED \<or> task_status t = EXPIRED"
  shows "pollTask taskId max_retries intervalMs net st
           = (Inl (Error (''Task '' @ taskId @ '' failed with status: '' @ status_text (task_status t))),
              snd (pollTask_observes taskId intervalMs net st n))"
proof -
  let ?st = "(pollTask_tick taskId intervalMs net ^^ n) st"
  have le: "0 + n \<le> max_retries" using assms(1) by simp
  have r: "pollTask taskId max_retries intervalMs net st
             = pollTask_loop taskId max_retries intervalMs net n ?st"
    unfolding pollTask_def using pollTask_loop_run [OF le assms(2)] by simp
  obtain st1 where g: "getTask taskId True net ?st = (Inr t, st1)"
    using assms(3) by (cases "getTask taskId True net ?st") (simp add: pollTask_observes_def)
  have ns: "task_status t \<noteq> SUCCEEDED" using assms(4) by auto
  show ?thesis
    unfolding r pollTask_loop_step [OF assms(1)] using g ns assms(4)
    by (simp add: pollTask_observes_def)
qed

text \<open>
  C5, as stated, fails on the last observed status: the timeout error is the same whether
  the last status seen was PENDING or IN_PROGRESS; its message names the task id only.
\<close>

theorem pollTask_timeout_omits_status:
  "fst (pollTask ''t1'' 1 10000 (stream_of [] (replies 200 (Some (a_task PENDING)))) fresh)
     = Inl (Error ''Task t1 timed out'')
   \<and> fst (pollTask ''t1'' 1 10000 (stream_of [] (replies 200 (Some (a_task IN_PROGRESS)))) fresh)
     = Inl (Error ''Task t1 timed out'')"
  by code_simp

text \<open>
  C5, amended. When every one of the \<open>maxRetries\<close> ticks observes a task that is neither
  SUCCEEDED nor FAILED nor EXPIRED, \<open>pollTask\<close> fails, after exactly \<open>maxRetries\<close> ticks, with
  the error \<open>Task {taskId} timed out\<close>, which carries the task id.
\<close>

theorem pollTask_times_out:
  assumes "\<forall>j<max_retries. keeps_polling (fst (pollTask_observes taskId intervalMs net st j))"
  shows "pollTask taskId max_retries intervalMs net st
           = (Inl (Error (''Task '' @ taskId @ '' timed out'')),
              (pollTask_tick taskId intervalMs net ^^ max_retries) st)"
proof -
  have le: "0 + max_retries \<le> max_retries" by simp
  have r: "pollTask taskId max_retries intervalMs net st
             = pollTask_loop taskId max_retries intervalMs net max_retries
                 ((pollTask_tick taskId intervalMs net ^^ max_retries) st)"
    unfolding pollTask_def using pollTask_loop_run [OF le assms] by simp
  show ?thesis
    unfolding r by (simp add: pollTask_loop.simps [of taskId max_retries intervalMs net max_retries])
qed

theorem pollTask_times_out_witness:
  "keeps_polling (fst (pollTask_observes ''t1'' 10000
       (stream_of [] (replies 200 (Some (a_task PENDING)))) fresh 0))
   \<and> keeps_polling (fst (pollTask_observes ''t1'' 10000
       (stream_of [] (replies 200 (Some (a_task PENDING)))) fresh 1))
   \<and> fst (pollTask ''t1'' 2 10000 (stream_of [] (replies 200 (Some (a_task PENDING)))) fresh)
       = Inl (Error ''Task t1 timed out'')"
proof -
  let ?net = "stream_of [] (replies 200 (Some (a_task PENDING)))"
  have k0: "keeps_polling (fst (pollTask_observes ''t1'' 10000 ?net fresh 0))" by code_simp
  have k1: "keeps_polling (fst (pollTask_observes ''t1'' 10000 ?net fresh 1))" by code_simp
  have a: "\<forall>j<2. keeps_polling (fst (pollTask_observes ''t1'' 10000 ?net fresh j))"
  proof (intro allI impI)
    fix j :: nat assume "j < 2"
    then have "j = 0 \<or> j = 1" by arith
    then show "keeps_polling (fst (pollTask_observes ''t1'' 10000 ?net fresh j))"
      using k0 k1 by auto
  qed
  from pollTask_times_out [OF a] k0 k1 show ?thesis by simp
qed


text \<open>The animation poller, tick by tick.\<close>

lemma pollAnimationTask_loop_step:
  assumes "i < max_retries"
  shows "pollAnimationTask_loop parse cfg taskId max_retries intervalMs net i st =
           (case getAnimationTask parse cfg taskId net st of
              (Inl e, st1) \<Rightarrow> (Inl e, st1)
            | (Inr t, st1) \<Rightarrow>
                if task_status t = SUCCEEDED then (Inr t, st1)
                else if task_status t = FAILED \<or> task_status t = CANCELED then
                  (Inl (Error (''Animation task '' @ taskId @ '' failed: ''
                               @ status_text (task_status t))), st1)
                else pollAnimationTask_loop parse cfg taskId max_retries intervalMs net (Suc i)
                       (sleep intervalMs st1))"
  using assms
  by (simp add: pollAnimationTask_loop.simps [of parse cfg taskId max_retries intervalMs net i])

lemma pollAnimationTask_loop_continues:
  assumes "i < max_retries"
    "keeps_polling_animation (fst (getAnimationTask parse cfg taskId net st))"
  shows "pollAnimationTask_loop parse cfg taskId max_retries intervalMs net i st
           = pollAnimationTask_loop parse cfg taskId max_retries intervalMs net (Suc i)
               (pollAnimationTask_tick parse cfg taskId intervalMs net st)"
  using assms(2) unfolding pollAnimationTask_loop_step [OF assms(1)]
  by (cases "getAnimationTask parse cfg taskId net st")
     (auto simp: keeps_polling_animation_def pollAnimationTask_tick_def split: sum.splits)

lemma pollAnimationTask_loop_run:
  assumes "i + n \<le> max_retries"
    "\<forall>j<n. keeps_polling_animation
              (fst (pollAnimationTask_observes parse cfg taskId intervalMs net st j))"
  shows "pollAnimationTask_loop parse cfg taskId max_retries intervalMs net i st
           = pollAnimationTask_loop parse cfg taskId max_retries intervalMs net (i + n)
               ((pollAnimationTask_tick parse cfg taskId intervalMs net ^^ n) st)"
  using assms
proof (induction n arbitrary: i st)
  case 0
  show ?case by simp
next
  case (Suc n)
  let ?tick = "pollAnimationTask_tick parse cfg taskId intervalMs net"
  have i: "i < max_retries" using Suc.prems(1) by simp
  have k: "keeps_polling_animation (fst (getAnimationTask parse cfg taskId net st))"
    using Suc.prems(2) by (auto simp: pollAnimationTask_observes_def dest: spec [of _ 0])
  have s: "pollAnimationTask_loop parse cfg taskId max_retries intervalMs net i st
             = pollAnimationTask_loop parse cfg taskId max_retries intervalMs net (Suc i) (?tick st)"
    by (rule pollAnimationTask_loop_continues [OF i k])
  have p: "\<forall>j<n. keeps_polling_animation
                   (fst (pollAnimationTask_observes parse cfg taskId intervalMs net (?tick st) j))"
  proof (intro allI impI)
    fix j assume "j < n"
    then have "keeps_polling_animation
                 (fst (pollAnimationTask_observes parse cfg taskId intervalMs net st (Suc j)))"
      using Suc.prems(2) by simp
    then show "keeps_polling_animation
                 (fst (pollAnimationTask_observes parse cfg taskId intervalMs net (?tick st) j))"
      by (simp add: pollAnimationTask_observes_def funpow_swap1)
  qed
  have b: "Suc i + n \<le> max_retries" using Suc.prems(1) by simp
  show ?case
    unfolding s using Suc.IH [OF b p] by (simp add: funpow_swap1)
qed

lemma pollAnimationTask_fails_on_failure_status:
  assumes "n < max_retries"
    "\<forall>j<n. keeps_polling_animation
              (fst (pollAnimationTask_observes parse cfg taskId intervalMs net st j))"
    "fst (pollAnimationTask_observes parse cfg taskId intervalMs net st n) = Inr t"
    "task_status t = FAILED \<or> task_status t = CANCELED"
  shows "pollAnimationTask parse cfg taskId max_retries intervalMs net st
           = (Inl (Error (''Animation task '' @ taskId @ '' failed: '' @ status_text (task_status t))),
              snd (pollAnimationTask_observes parse cfg taskId intervalMs net st n))"
proof -
  let ?st = "(pollAnimationTask_tick parse cfg taskId intervalMs net ^^ n) st"
  have le: "0 + n \<le> max_retries" using assms(1) by simp
  have r: "pollAnimationTask parse cfg taskId max_retries intervalMs net st
             = pollAnimationTask_loop parse cfg taskId max_retries intervalMs net n ?st"
    unfolding pollAnimationTask_def using pollAnimationTask_loop_run [OF le assms(2)] by simp
  obtain st1 where g: "getAnimationTask parse cfg taskId net ?st = (Inr t, st1)"
    using assms(3)
    by (cases "getAnimationTask parse cfg taskId net ?st") (simp add: pollAnimationTask_observes_def)
  have ns: "task_status t \<noteq> SUCCEEDED" using assms(4) by auto
  show ?thesis
    unfolding r pollAnimationTask_loop_step [OF assms(1)] using g ns assms(4)
    by (simp add: pollAnimationTask_observes_def)
qed

text \<open>The retexture and rigging pollers, tick by tick.\<close>

lemma pollRetextureTask_loop_step:
  assumes "i < max_retries"
  shows "pollRetextureTask_loop parse cfg taskId max_retries intervalMs net i st =
           (case getRetextureTask parse cfg taskId net st of
              (Inl e, st1) \<Rightarrow> (Inl e, st1)
            | (Inr t, st1) \<Rightarrow>
                if task_status t = SUCCEEDED then (Inr t, st1)
                else if task_status t = FAILED \<or> task_status t = EXPIRED then
                  (Inl (Error (''Retexture task '' @ taskId @ '' failed: ''
                               @ status_text (task_status t))), st1)
                else pollRetextureTask_loop parse cfg taskId max_retries intervalMs net (Suc i)
                       (sleep intervalMs st1))"
  using assms
  by (simp add: pollRetextureTask_loop.simps [of parse cfg taskId max_retries intervalMs net i])

lemma pollRetextureTask_loop_continues:
  assumes "i < max_retries"
    "keeps_polling (fst (getRetextureTask parse cfg taskId net st))"
  shows "pollRetextureTask_loop parse cfg taskId max_retries intervalMs net i st
           = pollRetextureTask_loop parse cfg taskId max_retries intervalMs net (Suc i)
               (pollRetextureTask_tick parse cfg taskId intervalMs net st)"
  using assms(2) unfolding pollRetextureTask_loop_step [OF assms(1)]
  by (cases "getRetextureTask parse cfg taskId net st")
     (auto simp: keeps_polling_def pollRetextureTask_tick_def split: sum.splits)

lemma pollRetextureTask_loop_run:
  assumes "i + n \<le> max_retries"
    "\<forall>j<n. keeps_polling
              (fst (pollRetextureTask_observes parse cfg taskId intervalMs net st j))"
  shows "pollRetextureTask_loop parse cfg taskId max_retries intervalMs net i st
           = pollRetextureTask_loop parse cfg taskId max_retries intervalMs net (i + n)
               ((pollRetextureTask_tick parse cfg taskId intervalMs net ^^ n) st)"
  using assms
proof (induction n arbitrary: i st)
  case 0
  show ?case by simp
next
  case (Suc n)
  let ?tick = "pollRetextureTask_tick parse cfg taskId intervalMs net"
  have i: "i < max_retries" using Suc.prems(1) by simp
  have k: "keeps_polling (fst (getRetextureTask parse cfg taskId net st))"
    using Suc.prems(2) by (auto simp: pollRetextureTask_observes_def dest: spec [of _ 0])
  have s: "pollRetextureTask_loop parse cfg taskId max_retries intervalMs net i st
             = pollRetextureTask_loop parse cfg taskId max_retries intervalMs net (Suc i) (?tick st)"
    by (rule pollRetextureTask_loop_continues [OF i k])
  have p: "\<forall>j<n. keeps_polling
                   (fst (pollRetextureTask_observes parse cfg taskId intervalMs net (?tick st) j))"
  proof (intro allI impI)
    fix j assume "j < n"
    then have "keeps_polling
                 (fst (pollRetextureTask_observes parse cfg taskId intervalMs net st (Suc j)))"
      using Suc.prems(2) by simp
    then show "keeps_polling
                 (fst (pollRetextureTask_observes parse cfg taskId intervalMs net (?tick st) j))"
      by (simp add: pollRetextureTask_observes_def funpow_swap1)
  qed
  have b: "Suc i + n \<le> max_retries" using Suc.prems(1) by simp
  show ?case
    unfolding s using Suc.IH [OF b p] by (simp add: funpow_swap1)
qed

lemma pollRetextureTask_fails_on_failure_status:
  assumes "n < max_retries"
    "\<forall>j<n. keeps_polling
              (fst (pollRetextureTask_observes parse cfg taskId intervalMs net st j))"
    "fst (pollRetextureTask_observes parse cfg taskId intervalMs net st n) = Inr t"
    "task_status t = FAILED \<or> task_status t = EXPIRED"
  shows "pollRetextureTask parse cfg taskId max_retries intervalMs net st
           = (Inl (Error (''Retexture task '' @ taskId @ '' failed: '' @ status_text (task_status t))),
              snd (pollRetextureTask_observes parse cfg taskId intervalMs net st n))"
proof -
  let ?st = "(pollRetextureTask_tick parse cfg taskId intervalMs net ^^ n) st"
  have le: "0 + n \<le> max_retries" using assms(1) by simp
  have r: "pollRetextureTask parse cfg taskId max_retries intervalMs net st
             = pollRetextureTask_loop parse cfg taskId max_retries intervalMs net n ?st"
    unfolding pollRetextureTask_def using pollRetextureTask_loop_run [OF le assms(2)] by simp
  obtain st1 where g: "getRetextureTask parse cfg taskId net ?st = (Inr t, st1)"
    using assms(3)
    by (cases "getRetextureTask parse cfg taskId net ?st") (simp add: pollRetextureTask_observes_def)
  have ns: "task_status t \<noteq> SUCCEEDED" using assms(4) by auto
  show ?thesis
    unfolding r pollRetextureTask_loop_step [OF assms(1)] using g ns assms(4)
    by (simp add: pollRetextureTask_observes_def)
qed

lemma pollRiggingTask_loop_step:
  assumes "i < max_retries"
  shows "pollRiggingTask_loop parse cfg taskId max_retries intervalMs net i st =
           (case getRiggingTask parse cfg taskId net st of
              (Inl e, st1) \<Rightarrow> (Inl e, st1)
            | (Inr t, st1) \<Rightarrow>
                if task_status t = SUCCEEDED then (Inr t, st1)
                else if task_status t = FAILED \<or> task_status t = CANCELED then
                  (Inl (Error (''Rigging task '' @ taskId @ '' failed: ''
                               @ status_text (task_status t))), st1)
                else pollRiggingTask_loop parse cfg taskId max_retries intervalMs net (Suc i)
                       (sleep intervalMs st1))"
  using assms
  by (simp add: pollRiggingTask_loop.simps [of parse cfg taskId max_retries intervalMs net i])

lemma pollRiggingTask_loop_continues:
  assumes "i < max_retries"
    "keeps_polling_animation (fst (getRiggingTask parse cfg taskId net st))"
  shows "pollRiggingTask_loop parse cfg taskId max_retries intervalMs net i st
           = pollRiggingTask_loop parse cfg taskId max_retries intervalMs net (Suc i)
               (pollRiggingTask_tick parse cfg taskId intervalMs net st)"
  using assms(2) unfolding pollRiggingTask_loop_step [OF assms(1)]
  by (cases "getRiggingTask parse cfg taskId net st")
     (auto simp: keeps_polling_animation_def pollRiggingTask_tick_def split: sum.splits)

lemma pollRiggingTask_loop_run:
  assumes "i + n \<le> max_retries"
    "\<forall>j<n. keeps_polling_animation
              (fst (pollRiggingTask_observes parse cfg taskId intervalMs net st j))"
  shows "pollRiggingTask_loop parse cfg taskId max_retries intervalMs net i st
           = pollRiggingTask_loop parse cfg taskId max_retries intervalMs net (i + n)
               ((pollRiggingTask_tick parse cfg taskId intervalMs net ^^ n) st)"
  using assms
proof (induction n arbitrary: i st)
  case 0
  show ?case by simp
next
  case (Suc n)
  let ?tick = "pollRiggingTask_tick parse cfg taskId intervalMs net"
  have i: "i < max_retries" using Suc.prems(1) by simp
  have k: "keeps_polling_animation (fst (getRiggingTask parse cfg taskId net st))"
    using Suc.prems(2) by (auto simp: pollRiggingTask_observes_def dest: spec [of _ 0])
  have s: "pollRiggingTask_loop parse cfg taskId max_retries intervalMs net i st
             = pollRiggingTask_loop parse cfg taskId max_retries intervalMs net (Suc i) (?tick st)"
    by (rule pollRiggingTask_loop_continues [OF i k])
  have p: "\<forall>j<n. keeps_polling_animation
                   (fst (pollRiggingTask_observes parse cfg taskId intervalMs net (?tick st) j))"
  proof (intro allI impI)
    fix j assume "j < n"
    then have "keeps_polling_animation
                 (fst (pollRiggingTask_observes parse cfg taskId intervalMs net st (Suc j)))"
      using Suc.prems(2) by simp
    then show "keeps_polling_animation
                 (fst (pollRiggingTask_observes parse cfg taskId intervalMs net (?tick st) j))"
      by (simp add: pollRiggingTask_observes_def funpow_swap1)
  qed
  have b: "Suc i + n \<le> max_retries" using Suc.prems(1) by simp
  show ?case
    unfolding s using Suc.IH [OF b p] by (simp add: funpow_swap1)
qed

lemma pollRiggingTask_fails_on_failure_status:
  assumes "n < max_retries"
    "\<forall>j<n. keeps_polling_animation
              (fst (pollRiggingTask_observes parse cfg taskId intervalMs net st j))"
    "fst (pollRiggingTask_observes parse cfg taskId intervalMs net st n) = Inr t"
    "task_status t = FAILED \<or> task_status t = CANCELED"
  shows "pollRiggingTask parse cfg taskId max_retries intervalMs net st
           = (Inl (Error (''Rigging task '' @ taskId @ '' failed: '' @ status_text (task_status t))),
              snd (pollRiggingTask_observes parse cfg taskId intervalMs net st n))"
proof -
  let ?st = "(pollRiggingTask_tick parse cfg taskId intervalMs net ^^ n) st"
  have le: "0 + n \<le> max_retries" using assms(1) by simp
  have r: "pollRiggingTask parse cfg taskId max_retries intervalMs net st
             = pollRiggingTask_loop parse cfg taskId max_retries intervalMs net n ?st"
    unfolding pollRiggingTask_def using pollRiggingTask_loop_run [OF le assms(2)] by simp
  obtain st1 where g: "getRiggingTask parse cfg taskId net ?st = (Inr t, st1)"
    using assms(3)
    by (cases "getRiggingTask parse cfg taskId net ?st") (simp add: pollRiggingTask_observes_def)
  have ns: "task_status t \<noteq> SUCCEEDED" using assms(4) by auto
  show ?thesis
    unfolding r pollRiggingTask_loop_step [OF assms(1)] using g ns assms(4)
    by (simp add: pollRiggingTask_observes_def)
qed

text \<open>
  C4, as stated, fails for the status each poller leaves out: \<open>pollTask\<close> and
  \<open>pollRetextureTask\<close> treat CANCELED as a status to keep polling on, \<open>pollAnimationTask\<close>
  and \<open>pollRiggingTask\<close> do so with EXPIRED; they poll again and end in the timeout error.
\<close>

theorem pollers_miss_a_failure_status:
  "fst (pollTask ''t1'' 2 10000 (stream_of [] (replies 200 (Some (a_task CANCELED)))) fresh)
     = Inl (Error ''Task t1 timed out'')
   \<and> attempts (trace (snd (pollTask ''t1'' 2 10000
                  (stream_of [] (replies 200 (Some (a_task CANCELED)))) fresh))) = 2
   \<and> fst (pollAnimationTask never_parses DEFAULT_RETRY_CONFIG ''t1'' 2 10000
            (stream_of [] (replies 200 (Some (a_task EXPIRED)))) fresh)
     = Inl (Error ''Animation task t1 timed out'')
   \<and> fst (pollRetextureTask never_parses DEFAULT_RETRY_CONFIG ''t1'' 2 10000
            (stream_of [] (replies 200 (Some (a_task CANCELED)))) fresh)
     = Inl (Error ''Retexture task t1 timed out'')
   \<and> fst (pollRiggingTask never_parses DEFAULT_RETRY_CONFIG ''t1'' 2 10000
            (stream_of [] (replies 200 (Some (a_task EXPIRED)))) fresh)
     = Inl (Error ''Rigging task t1 timed out'')"
  by code_simp

text \<open>
  C4, amended. Each poller fails on the terminal failure statuses of its own task type.
  When the first \<open>n\<close> ticks continue and tick \<open>n < maxRetries\<close> observes FAILED or EXPIRED,
  \<open>pollTask\<close> stops there with the error \<open>Task {taskId} failed with status: {status}\<close> and
  \<open>pollRetextureTask\<close> with \<open>Retexture task {taskId} failed: {status}\<close>; when it observes
  FAILED or CANCELED, \<open>pollAnimationTask\<close> stops there with
  \<open>Animation task {taskId} failed: {status}\<close> and \<open>pollRiggingTask\<close> with
  \<open>Rigging task {taskId} failed: {status}\<close>. Every one of these errors carries the id and
  the status.
\<close>

theorem pollers_fail_on_failure_status:
  "(n < max_retries
      \<and> (\<forall>j<n. keeps_polling (fst (pollTask_observes taskId intervalMs net st j)))
      \<and> fst (pollTask_observes taskId intervalMs net st n) = Inr t
      \<and> (task_status t = FAILED \<or> task_status t = EXPIRED)
    \<longrightarrow> pollTask taskId max_retries intervalMs net st
          = (Inl (Error (''Task '' @ taskId @ '' failed with status: '' @ status_text (task_status t))),
             snd (pollTask_observes taskId intervalMs net st n)))
   \<and> (n < max_retries
      \<and> (\<forall>j<n. keeps_polling_animation
                  (fst (pollAnimationTask_observes parse cfg taskId intervalMs net st j)))
      \<and> fst (pollAnimationTask_observes parse cfg taskId intervalMs net st n) = Inr t
      \<and> (task_status t = FAILED \<or> task_status t = CANCELED)
    \<longrightarrow> pollAnimationTask parse cfg taskId max_retries intervalMs net st
          = (Inl (Error (''Animation task '' @ taskId @ '' failed: '' @ status_text (task_status t))),
             snd (pollAnimationTask_observes parse cfg taskId intervalMs net st n)))
   \<and> (n < max_retries
      \<and> (\<forall>j<n. keeps_polling
                  (fst (pollRetextureTask_observes parse cfg taskId intervalMs net st j)))
      \<and> fst (pollRetextureTask_observes parse cfg taskId intervalMs net st n) = Inr t
      \<and> (task_status t = FAILED \<or> task_status t = EXPIRED)
    \<longrightarrow> pollRetextureTask parse cfg taskId max_retries intervalMs net st
          = (Inl (Error (''Retexture task '' @ taskId @ '' failed: '' @ status_text (task_status t))),
             snd (pollRetextureTask_observes parse cfg taskId intervalMs net st n)))
   \<and> (n < max_retries
      \<and> (\<forall>j<n. keeps_polling_animation
                  (fst (pollRiggingTask_observes parse cfg taskId intervalMs net st j)))
      \<and> fst (pollRiggingTask_observes parse cfg taskId intervalMs net st n) = Inr t
      \<and> (task_status t = FAILED \<or> task_status t = CANCELED)
    \<longrightarrow> pollRiggingTask parse cfg taskId max_retries intervalMs net st
          = (Inl (Error (''Rigging task '' @ taskId @ '' failed: '' @ status_text (task_status t))),
             snd (pollRiggingTask_observes parse cfg taskId intervalMs net st n)))"
  using pollTask_fails_on_failure_status [of n max_retries taskId intervalMs net st t]
        pollAnimationTask_fails_on_failure_status [of n max_retries parse cfg taskId intervalMs net st t]
        pollRetextureTask_fails_on_failure_status [of n max_retries parse cfg taskId intervalMs net st t]
        pollRiggingTask_fails_on_failure_status [of n max_retries parse cfg taskId intervalMs net st t]
  by blast

theorem pollers_fail_on_failure_status_witness:
  "(1::nat) < 60
   \<and> keeps_polling (fst (pollTask_observes ''t1'' 10000
        (stream_of [replies 200 (Some (a_task PENDING))] (replies 200 (Some (a_task EXPIRED)))) fresh 0))
   \<and> fst (pollTask_observes ''t1'' 10000
        (stream_of [replies 200 (Some (a_task PENDING))] (replies 200 (Some (a_task EXPIRED)))) fresh 1)
       = Inr (a_task EXPIRED)
   \<and> (task_status (a_task EXPIRED) = FAILED \<or> task_status (a_task EXPIRED) = EXPIRED)
   \<and> fst (pollTask ''t1'' 60 10000
        (stream_of [replies 200 (Some (a_task PENDING))] (replies 200 (Some (a_task EXPIRED)))) fresh)
       = Inl (Error ''Task t1 failed with status: EXPIRED'')
   \<and> keeps_polling_animation (fst (pollAnimationTask_observes never_parses DEFAULT_RETRY_CONFIG ''t1'' 10000
        (stream_of [replies 200 (Some (a_task PENDING))] (replies 200 (Some (a_task CANCELED)))) fresh 0))
   \<and> fst (pollAnimationTask_observes never_parses DEFAULT_RETRY_CONFIG ''t1'' 10000
        (stream_of [replies 200 (Some (a_task PENDING))] (replies 200 (Some (a_task CANCELED)))) fresh 1)
       = Inr (a_task CANCELED)
   \<and> (task_status (a_task CANCELED) = FAILED \<or> task_status (a_task CANCELED) = CANCELED)
   \<and> fst (pollAnimationTask never_parses DEFAULT_RETRY_CONFIG ''t1'' 60 10000
        (stream_of [replies 200 (Some (a_task PENDING))] (replies 200 (Some (a_task CANCELED)))) fresh)
       = Inl (Error ''Animation task t1 failed: CANCELED'')
   \<and> keeps_polling (fst (pollRetextureTask_observes never_parses DEFAULT_RETRY_CONFIG ''t1'' 10000
        (stream_of [replies 200 (Some (a_task PENDING))] (replies 200 (Some (a_task EXPIRED)))) fresh 0))
   \<and> fst (pollRetextureTask_observes never_parses DEFAULT_RETRY_CONFIG ''t1'' 10000
        (stream_of [replies 200 (Some (a_task PENDING))] (replies 200 (Some (a_task EXPIRED)))) fresh 1)
       = Inr (a_task EXPIRED)
   \<and> fst (pollRetextureTask never_parses DEFAULT_RETRY_CONFIG ''t1'' 60 10000
        (stream_of [replies 200 (Some (a_task PENDING))] (replies 200 (Some (a_task EXPIRED)))) fresh)
       = Inl (Error ''Retexture task t1 failed: EXPIRED'')
   \<and> keeps_polling_animation (fst (pollRiggingTask_observes never_parses DEFAULT_RETRY_CONFIG ''t1'' 10000
        (stream_of [replies 200 (Some (a_task PENDING))] (replies 200 (Some (a_task CANCELED)))) fresh 0))
   \<and> fst (pollRiggingTask_observes never_parses DEFAULT_RETRY_CONFIG ''t1'' 10000
        (stream_of [replies 200 (Some (a_task PENDING))] (replies 200 (Some (a_task CANCELED)))) fresh 1)
       = Inr (a_task CANCELED)
   \<and> fst (pollRiggingTask never_parses DEFAULT_RETRY_CONFIG ''t1'' 60 10000
        (stream_of [replies 200 (Some (a_task PENDING))] (replies 200 (Some (a_task CANCELED)))) fresh)
       = Inl (Error ''Rigging task t1 failed: CANCELED'')"
proof -
  let ?n1 = "stream_of [replies 200 (Some (a_task PENDING))] (replies 200 (Some (a_task EXPIRED)))"
  let ?n2 = "stream_of [replies 200 (Some (a_task PENDING))] (replies 200 (Some (a_task CANCELED)))"
  note inst = pollers_fail_on_failure_status
  have n: "(1::nat) < 60" by simp
  have k1: "keeps_polling (fst (pollTask_observes ''t1'' 10000 ?n1 fresh 0))" by code_simp
  have o1: "fst (pollTask_observes ''t1'' 10000 ?n1 fresh 1) = Inr (a_task EXPIRED)" by code_simp
  have s1: "task_status (a_task EXPIRED) = FAILED \<or> task_status (a_task EXPIRED) = EXPIRED"
    by (simp add: a_task_def)
  have k2: "keeps_polling_animation
              (fst (pollAnimationTask_observes never_parses DEFAULT_RETRY_CONFIG ''t1'' 10000 ?n2 fresh 0))"
    by code_simp
  have o2: "fst (pollAnimationTask_observes never_parses DEFAULT_RETRY_CONFIG ''t1'' 10000 ?n2 fresh 1)
              = Inr (a_task CANCELED)" by code_simp
  have s2: "task_status (a_task CANCELED) = FAILED \<or> task_status (a_task CANCELED) = CANCELED"
    by (simp add: a_task_def)
  have k3: "keeps_polling
              (fst (pollRetextureTask_observes never_parses DEFAULT_RETRY_CONFIG ''t1'' 10000 ?n1 fresh 0))"
    by code_simp
  have o3: "fst (pollRetextureTask_observes never_parses DEFAULT_RETRY_CONFIG ''t1'' 10000 ?n1 fresh 1)
              = Inr (a_task EXPIRED)" by code_simp
  have k4: "keeps_polling_animation
              (fst (pollRiggingTask_observes never_parses DEFAULT_RETRY_CONFIG ''t1'' 10000 ?n2 fresh 0))"
    by code_simp
  have o4: "fst (pollRiggingTask_observes never_parses DEFAULT_RETRY_CONFIG ''t1'' 10000 ?n2 fresh 1)
              = Inr (a_task CANCELED)" by code_simp
  have a1: "\<forall>j<1. keeps_polling (fst (pollTask_observes ''t1'' 10000 ?n1 fresh j))"
    using k1 by simp
  have a2: "\<forall>j<1. keeps_polling_animation
              (fst (pollAnimationTask_observes never_parses DEFAULT_RETRY_CONFIG ''t1'' 10000 ?n2 fresh j))"
    using k2 by simp
  have a3: "\<forall>j<1. keeps_polling
              (fst (pollRetextureTask_observes never_parses DEFAULT_RETRY_CONFIG ''t1'' 10000 ?n1 fresh j))"
    using k3 by simp
  have a4: "\<forall>j<1. keeps_polling_animation
              (fst (pollRiggingTask_observes never_parses DEFAULT_RETRY_CONFIG ''t1'' 10000 ?n2 fresh j))"
    using k4 by simp
  have e1: "status_text (task_status (a_task EXPIRED)) = ''EXPIRED''" by (simp add: a_task_def)
  have e2: "status_text (task_status (a_task CANCELED)) = ''CANCELED''" by (simp add: a_task_def)
  have c1: "fst (pollTask ''t1'' 60 10000 ?n1 fresh) = Inl (Error ''Task t1 failed with status: EXPIRED'')"
    using inst [of 1 60 "''t1''" 10000 ?n1 fresh "a_task EXPIRED"] n a1 o1 s1 by (simp add: e1)
  have c3: "fst (pollRetextureTask never_parses DEFAULT_RETRY_CONFIG ''t1'' 60 10000 ?n1 fresh)
              = Inl (Error ''Retexture task t1 failed: EXPIRED'')"
    using inst [of 1 60 "''t1''" 10000 ?n1 fresh "a_task EXPIRED" never_parses DEFAULT_RETRY_CONFIG]
          n a3 o3 s1 by (simp add: e1)
  have c2: "fst (pollAnimationTask never_parses DEFAULT_RETRY_CONFIG ''t1'' 60 10000 ?n2 fresh)
              = Inl (Error ''Animation task t1 failed: CANCELED'')"
    using inst [of 1 60 "''t1''" 10000 ?n2 fresh "a_task CANCELED" never_parses DEFAULT_RETRY_CONFIG]
          n a2 o2 s2 by (simp add: e2)
  have c4: "fst (pollRiggingTask never_parses DEFAULT_RETRY_CONFIG ''t1'' 60 10000 ?n2 fresh)
              = Inl (Error ''Rigging task t1 failed: CANCELED'')"
    using inst [of 1 60 "''t1''" 10000 ?n2 fresh "a_task CANCELED" never_parses DEFAULT_RETRY_CONFIG]
          n a4 o4 s2 by (simp add: e2)
  from n k1 o1 s1 c1 k2 o2 s2 c2 k3 o3 c3 k4 o4 c4 show ?thesis by blast
qed


end
